theory Spec2Isabelle
  imports Main
begin

text \<open>
  The module \<open>sonnixgres.py\<close>: credentials read from the environment, connections opened
  with psycopg2, tables created and populated from data frames, queries, updates and
  views run with commit, rollback and close, and a cache of reflected metadata rendered
  as column definitions. The functions are modelled on an explicit world (the database,
  the sessions, the driver calls made, the log); what the server and the external
  libraries decide is a parameter.
\<close>

section \<open>Exceptions and the log\<close>

text \<open>
  The exceptions of the external libraries (psycopg2, pandas, SQLAlchemy) that the module
  catches with \<open>except (Exception, psycopg2.DatabaseError)\<close>. The module defines exactly one
  exception class of its own, \<open>ConnectionError\<close>; it is raised with a message
  (\<open>ConnectionError("No connection to database.")\<close>) or around a caught exception
  (\<open>raise ConnectionError(error) from error\<close>). A bare \<open>raise\<close> re-raises the caught
  exception object itself.
\<close>

datatype lib_error =
    InterfaceError
  | UndefinedTable string
  | UndefinedColumn string
  | DuplicateColumn
  | SyntaxError
  | ProgrammingError
  | InFailedSqlTransaction
  | OperationalError string

datatype cause = Message string | Wrapped lib_error

datatype exn =
    ConnectionError cause
  | External lib_error
  | AttributeError
  | ValueError

text \<open>
  A record of the module's logger: \<open>logger.info(msg)\<close> and
  \<open>logger.error(f"prefix: {error}")\<close>, the interpolated exception kept as a value.
\<close>

datatype log_record = Info string | Error string exn

section \<open>PostgresCredentials\<close>

text \<open>Python's \<open>s.split(sep)\<close> for a separator of one character.\<close>

fun split :: "char \<Rightarrow> string \<Rightarrow> string list" where
  "split sep [] = [ [] ]"
| "split sep (x # xs) =
     (if x = sep then [] # split sep xs
      else (case split sep xs of
              [] \<Rightarrow> [ [x] ]
            | y # ys \<Rightarrow> (x # y) # ys))"

text \<open>\<open>os.getenv(key, default)\<close> on the environment \<open>env\<close>.\<close>

definition getenv :: "(string \<rightharpoonup> string) \<Rightarrow> string \<Rightarrow> string \<Rightarrow> string" where
  "getenv env key dflt = (case env key of None \<Rightarrow> dflt | Some v \<Rightarrow> v)"

record credentials =
  host :: "string option"
  database :: "string option"
  user :: "string option"
  password :: "string option"
  port :: int
  schema :: string
  tables :: "string list"

text \<open>
  \<open>PostgresCredentials.__init__\<close>. The builtin \<open>int\<close> on a string is the parameter
  \<open>py_int\<close> (\<open>None\<close> where it raises \<open>ValueError\<close>); \<open>int(os.getenv('DB_PORT', 5432))\<close>
  is \<open>int(5432)\<close> when the variable is absent.
\<close>

definition PostgresCredentials ::
  "(string \<Rightarrow> int option) \<Rightarrow> (string \<rightharpoonup> string) \<Rightarrow> exn + credentials" where
  "PostgresCredentials py_int env =
     (case (case env ''DB_PORT'' of None \<Rightarrow> Some 5432 | Some s \<Rightarrow> py_int s) of
        None \<Rightarrow> Inl ValueError
      | Some p \<Rightarrow>
          Inr \<lparr> host = env ''DB_HOST'',
                database = env ''DB_DATABASE'',
                user = env ''DB_USER'',
                password = env ''DB_PASSWORD'',
                port = p,
                schema = getenv env ''DB_SCHEMA'' '''',
                tables = split CHR '','' (getenv env ''DB_TABLES'' '''') \<rparr>)"

section \<open>MetadataCache\<close>

text \<open>
  A reflected column as \<open>format_column_details\<close> reads it: \<open>column.name\<close>,
  \<open>str(column.type)\<close> and \<open>column.primary_key\<close>.
\<close>

record column =
  name :: string
  type_name :: string
  primary_key :: bool

definition sql_type_mapping :: "(string \<times> string) list" where
  "sql_type_mapping =
     [(''INTEGER'', ''INT''),
      (''BIGINT'', ''BIGINT''),
      (''TEXT'', ''VARCHAR(255)''),
      (''BOOLEAN'', ''BOOLEAN''),
      (''DATE'', ''DATE''),
      (''FLOAT'', ''FLOAT''),
      (''DOUBLE'', ''DOUBLE PRECISION''),
      (''SERIAL'', ''SERIAL'')]"

definition format_column_details :: "column \<Rightarrow> string" where
  "format_column_details col =
     (let sql_type = (case map_of sql_type_mapping (type_name col) of
                        None \<Rightarrow> ''VARCHAR(255)''
                      | Some s \<Rightarrow> s);
          details = name col @ '' '' @ sql_type
      in if primary_key col then details @ '' PRIMARY KEY'' else details)"

text \<open>
  The reflected metadata (\<open>MetaData().tables\<close>) is a list of tables by name; the
  reflection of one table, \<open>metadata.reflect(bind=engine, only=[table], schema=schema)\<close>,
  is SQLAlchemy's and is the parameter \<open>reflect\<close>: it extends the metadata or raises.
\<close>

record table_obj =
  table_name :: string
  table_columns :: "column list"

type_synonym metadata = "(string \<times> table_obj) list"

record metadata_cache_obj =
  cache_schema :: string
  cache_tables :: "string list"
  metadata_cache :: "metadata option"

text \<open>The loop \<open>for table in self.tables: metadata.reflect(...)\<close>; the first exception ends it.\<close>

fun reflect_tables ::
  "(string \<Rightarrow> string \<Rightarrow> metadata \<Rightarrow> lib_error + metadata) \<Rightarrow> string \<Rightarrow> string list
     \<Rightarrow> metadata \<Rightarrow> lib_error + metadata" where
  "reflect_tables reflect sch [] m = Inr m"
| "reflect_tables reflect sch (t # ts) m =
     (case reflect sch t m of
        Inl e \<Rightarrow> Inl e
      | Inr m' \<Rightarrow> reflect_tables reflect sch ts m')"

text \<open>
  \<open>MetadataCache.refresh_metadata_cache\<close>, run by one thread (the lock is not modelled).
  It returns the object and the log; it has no exception to return, since the
  \<open>except Exception\<close> branch only logs.
\<close>

definition refresh_metadata_cache ::
  "(string \<Rightarrow> string \<Rightarrow> metadata \<Rightarrow> lib_error + metadata) \<Rightarrow> metadata_cache_obj
     \<Rightarrow> log_record list \<Rightarrow> metadata_cache_obj \<times> log_record list" where
  "refresh_metadata_cache reflect self lg =
     (case reflect_tables reflect (cache_schema self) (cache_tables self) [] of
        Inr m \<Rightarrow>
          (self\<lparr>metadata_cache := Some m\<rparr>, lg @ [Info ''Metadata cache refreshed.''])
      | Inl e \<Rightarrow>
          (self, lg @ [Error ''Error refreshing metadata cache: '' (External e)]))"

section \<open>The database engine and the driver\<close>

datatype cell = Null | Text string | Number int

record table =
  cols :: "string list"
  rows :: "(string \<times> cell) list list"

type_synonym db = "string \<rightharpoonup> table"

text \<open>
  The statements the module sends. The first three are the texts it builds itself:
  \<open>CREATE TABLE IF NOT EXISTS {table_name} ();\<close>,
  \<open>ALTER TABLE {table_name} ADD COLUMN IF NOT EXISTS {col} TEXT;\<close> and
  \<open>INSERT INTO {table_name} ({insert_columns}) VALUES (%s, ...)\<close> bound to one row.
  The others are \<open>SET search_path TO %s\<close> bound to the schema,
  \<open>CREATE OR REPLACE VIEW {view_name} AS {view_query}\<close>, and the caller's own text with
  its parameters.
\<close>

datatype stmt =
    CreateTableIfNotExists string
  | AddColumnIfNotExists string string
  | InsertInto string "string list" "cell list"
  | SetSearchPath string
  | CreateOrReplaceView string string
  | Sql string "cell list option"

text \<open>The calls the module makes on a connection.\<close>

datatype call = Connect | Cursor | Execute stmt | Commit | Rollback | Close

text \<open>
  What the server decides by itself: whether it accepts a connection (\<open>accept\<close>); what a
  statement whose text the module does not build does to a database when it runs
  (\<open>run\<close>); and whether it refuses a statement, a commit or a rollback for a reason of
  its own, such as a syntax error, a permission, a timeout or a lost connection
  (\<open>fault\<close>, which sees the calls made so far, the connection and the call).
\<close>

record server =
  accept :: "credentials \<Rightarrow> lib_error option"
  run :: "stmt \<Rightarrow> db \<Rightarrow> db"
  fault :: "(nat \<times> call) list \<Rightarrow> nat \<Rightarrow> call \<Rightarrow> lib_error option"

text \<open>
  Modelled from the spec: the database engine, which is not part of the repository. It
  supports \<open>CREATE TABLE IF NOT EXISTS\<close>, \<open>ALTER TABLE ... ADD COLUMN IF NOT EXISTS\<close> and
  parameterized inserts. This is what a statement that the server does not refuse does
  to a database. Identifiers are compared as they are written. Altering or inserting
  into a table that does not exist fails with \<open>UndefinedTable\<close>; an insert names each
  column once, names columns of the table only, and binds one value to each. Setting the
  search path changes no table.
\<close>

fun exec_stmt :: "server \<Rightarrow> db \<Rightarrow> stmt \<Rightarrow> lib_error + db" where
  "exec_stmt srv d (CreateTableIfNotExists t) =
     (case d t of
        None \<Rightarrow> Inr (d(t \<mapsto> \<lparr> cols = [], rows = [] \<rparr>))
      | Some tb \<Rightarrow> Inr d)"
| "exec_stmt srv d (AddColumnIfNotExists t c) =
     (case d t of
        None \<Rightarrow> Inl (UndefinedTable t)
      | Some tb \<Rightarrow>
          if c \<in> set (cols tb) then Inr d
          else Inr (d(t \<mapsto> tb\<lparr>cols := cols tb @ [c]\<rparr>)))"
| "exec_stmt srv d (InsertInto t cs vs) =
     (if length vs = length cs then
        (case d t of
           None \<Rightarrow> Inl (UndefinedTable t)
         | Some tb \<Rightarrow>
             (case find (\<lambda>c. c \<notin> set (cols tb)) cs of
                Some c \<Rightarrow> Inl (UndefinedColumn c)
              | None \<Rightarrow>
                  if distinct cs then Inr (d(t \<mapsto> tb\<lparr>rows := rows tb @ [zip cs vs]\<rparr>))
                  else Inl DuplicateColumn))
      else Inl ProgrammingError)"
| "exec_stmt srv d (SetSearchPath s) = Inr d"
| "exec_stmt srv d (CreateOrReplaceView v q) = Inr (run srv (CreateOrReplaceView v q) d)"
| "exec_stmt srv d (Sql q ps) = Inr (run srv (Sql q ps) d)"

text \<open>A statement that has run, applied to a database again.\<close>

definition apply_stmt :: "server \<Rightarrow> db \<Rightarrow> stmt \<Rightarrow> db" where
  "apply_stmt srv d s = (case exec_stmt srv d s of Inl e \<Rightarrow> d | Inr d' \<Rightarrow> d')"

text \<open>
  A session of the driver, in psycopg2's default transaction mode (the module never
  enables autocommit). The statements that have run since the last commit or rollback
  are the session's open transaction (\<open>pending\<close>): the session sees the committed
  database with them applied, other sessions do not, \<open>commit\<close> publishes them on top of
  what is committed by then, and \<open>rollback\<close> and \<open>close\<close> drop them. A statement that
  fails leaves the transaction failed (\<open>aborted\<close>): until a rollback every further
  statement is refused with \<open>InFailedSqlTransaction\<close>, and a commit then publishes
  nothing and raises nothing. Sessions do not wait for one another: a statement that
  would wait for a lock of another session's open transaction is taken to run, unless
  the server refuses it. The world holds the committed database, the sessions by handle,
  the calls made on connections so far, in order, and the log. Closing a cursor
  (\<open>cursor.close()\<close>, or leaving \<open>with connection.cursor()\<close>) is not a call on the
  connection and changes nothing here; it is left out.
\<close>

record session =
  closed :: bool
  aborted :: bool
  pending :: "stmt list"

record world =
  committed :: db
  sessions :: "nat \<Rightarrow> session"
  opened :: nat
  calls :: "(nat \<times> call) list"
  logged :: "log_record list"

definition logger_info :: "string \<Rightarrow> world \<Rightarrow> world" where
  "logger_info msg w = w\<lparr>logged := logged w @ [Info msg]\<rparr>"

definition logger_error :: "string \<Rightarrow> exn \<Rightarrow> world \<Rightarrow> world" where
  "logger_error msg x w = w\<lparr>logged := logged w @ [Error msg x]\<rparr>"

definition called :: "nat \<Rightarrow> call \<Rightarrow> world \<Rightarrow> world" where
  "called h c w = w\<lparr>calls := calls w @ [(h, c)]\<rparr>"

text \<open>The database as the open transaction of session \<open>h\<close> sees it.\<close>

definition view :: "server \<Rightarrow> world \<Rightarrow> nat \<Rightarrow> db" where
  "view srv w h = foldl (apply_stmt srv) (committed w) (pending (sessions w h))"

text \<open>The session \<open>h\<close> of a world, replaced.\<close>

definition with_session :: "nat \<Rightarrow> session \<Rightarrow> world \<Rightarrow> world" where
  "with_session h ss w = w\<lparr>sessions := (sessions w)(h := ss)\<rparr>"

definition idle :: session where
  "idle = \<lparr> closed = False, aborted = False, pending = [] \<rparr>"

text \<open>\<open>psycopg2.connect(...)\<close>: a new open session, or the server's refusal.\<close>

definition connect :: "server \<Rightarrow> credentials \<Rightarrow> world \<Rightarrow> world \<times> (lib_error + nat)" where
  "connect srv cred w =
     (case accept srv cred of
        Some e \<Rightarrow> (w, Inl e)
      | None \<Rightarrow>
          (called (opened w) Connect
             ((with_session (opened w) idle w)\<lparr>opened := Suc (opened w)\<rparr>),
           Inr (opened w)))"

text \<open>\<open>connection.cursor()\<close> raises \<open>InterfaceError\<close> on a closed connection.\<close>

definition cursor :: "nat \<Rightarrow> world \<Rightarrow> world \<times> (lib_error + unit)" where
  "cursor h w =
     (if closed (sessions w h) then (called h Cursor w, Inl InterfaceError)
      else (called h Cursor w, Inr ()))"

text \<open>
  \<open>cursor.execute(statement)\<close>: refused on a closed connection, in a failed transaction,
  by the server, or by the engine; a refusal by the server or the engine fails the
  transaction.
\<close>

definition execute :: "server \<Rightarrow> nat \<Rightarrow> stmt \<Rightarrow> world \<Rightarrow> world \<times> (lib_error + unit)" where
  "execute srv h s w =
     (if closed (sessions w h) then (called h (Execute s) w, Inl InterfaceError)
      else if aborted (sessions w h) then (called h (Execute s) w, Inl InFailedSqlTransaction)
      else (case fault srv (calls w) h (Execute s) of
              Some e \<Rightarrow>
                (called h (Execute s) (with_session h ((sessions w h)\<lparr>aborted := True\<rparr>) w),
                 Inl e)
            | None \<Rightarrow>
                (case exec_stmt srv (view srv w h) s of
                   Inl e \<Rightarrow>
                     (called h (Execute s)
                        (with_session h ((sessions w h)\<lparr>aborted := True\<rparr>) w),
                      Inl e)
                 | Inr d \<Rightarrow>
                     (called h (Execute s)
                        (with_session h ((sessions w h)\<lparr>pending := pending (sessions w h) @ [s]\<rparr>) w),
                      Inr ()))))"

text \<open>
  \<open>connection.commit()\<close>: raises on a closed connection or when the server refuses it,
  and then publishes nothing; the transaction is over either way.
\<close>

definition commit :: "server \<Rightarrow> nat \<Rightarrow> world \<Rightarrow> world \<times> (lib_error + unit)" where
  "commit srv h w =
     (if closed (sessions w h) then (called h Commit w, Inl InterfaceError)
      else (case fault srv (calls w) h Commit of
              Some e \<Rightarrow> (called h Commit (with_session h idle w), Inl e)
            | None \<Rightarrow>
                (called h Commit
                   (with_session h idle
                      (w\<lparr>committed := (if aborted (sessions w h) then committed w
                                        else view srv w h)\<rparr>)),
                 Inr ())))"

text \<open>
  \<open>connection.rollback()\<close>: raises on a closed connection or when the server refuses it,
  and then changes nothing.
\<close>

definition rollback :: "server \<Rightarrow> nat \<Rightarrow> world \<Rightarrow> world \<times> (lib_error + unit)" where
  "rollback srv h w =
     (if closed (sessions w h) then (called h Rollback w, Inl InterfaceError)
      else (case fault srv (calls w) h Rollback of
              Some e \<Rightarrow> (called h Rollback w, Inl e)
            | None \<Rightarrow> (called h Rollback (with_session h idle w), Inr ())))"

text \<open>\<open>connection.close()\<close> never raises; what the session had not committed is lost.\<close>

definition close :: "nat \<Rightarrow> world \<Rightarrow> world" where
  "close h w =
     called h Close (with_session h \<lparr> closed = True, aborted = False, pending = [] \<rparr> w)"

section \<open>The control flow of the module\<close>

text \<open>
  A call of the module takes the world and returns the new world with its result; an
  exception that leaves the call is \<open>Inl\<close>.
\<close>

definition and_then ::
  "world \<times> (exn + 'a) \<Rightarrow> ('a \<Rightarrow> world \<Rightarrow> world \<times> (exn + 'b)) \<Rightarrow> world \<times> (exn + 'b)" where
  "and_then r f = (case r of (w, Inl x) \<Rightarrow> (w, Inl x) | (w, Inr v) \<Rightarrow> f v w)"

text \<open>A library call inside \<open>try\<close>: what it raises is the exception object itself.\<close>

definition raised :: "world \<times> (lib_error + 'a) \<Rightarrow> world \<times> (exn + 'a)" where
  "raised r = (case r of (w, Inl e) \<Rightarrow> (w, Inl (External e)) | (w, Inr v) \<Rightarrow> (w, Inr v))"

text \<open>\<open>except (Exception, psycopg2.DatabaseError) as error: logger.error(...); raise\<close>.\<close>

definition except_log :: "string \<Rightarrow> world \<times> (exn + 'a) \<Rightarrow> world \<times> (exn + 'a)" where
  "except_log msg r =
     (case r of
        (w, Inl x) \<Rightarrow> (logger_error msg x w, Inl x)
      | (w, Inr v) \<Rightarrow> (w, Inr v))"

text \<open>
  \<open>except ... as error: connection.rollback(); logger.error(...); raise\<close>: an exception
  of the rollback itself leaves the handler in place of the caught one.
\<close>

definition except_rollback ::
  "server \<Rightarrow> nat \<Rightarrow> string \<Rightarrow> world \<times> (exn + 'a) \<Rightarrow> world \<times> (exn + 'a)" where
  "except_rollback srv h msg r =
     (case r of
        (w, Inl x) \<Rightarrow>
          (case rollback srv h w of
             (w', Inl e) \<Rightarrow> (w', Inl (External e))
           | (w', Inr u) \<Rightarrow> (logger_error msg x w', Inl x))
      | (w, Inr v) \<Rightarrow> (w, Inr v))"

text \<open>\<open>finally: if close_connection: connection.close(); logger.info(...)\<close>.\<close>

definition finally_close ::
  "nat \<Rightarrow> bool \<Rightarrow> world \<times> (exn + 'a) \<Rightarrow> world \<times> (exn + 'a)" where
  "finally_close h close_connection r =
     (case r of
        (w, res) \<Rightarrow>
          if close_connection
          then (logger_info ''Database connection closed.'' (close h w), res)
          else (w, res))"

section \<open>Connections\<close>

text \<open>
  \<open>_get_connection\<close>. Everything is inside one \<open>try\<close>, whose handler logs the exception
  and raises \<open>ConnectionError(error)\<close>; the handler makes no driver call.
\<close>

definition get_connection :: "server \<Rightarrow> credentials \<Rightarrow> world \<Rightarrow> world \<times> (exn + nat)" where
  "get_connection srv cred w =
     (case (case connect srv cred w of
              (w1, Inl e) \<Rightarrow> (w1, Inl e)
            | (w1, Inr h) \<Rightarrow>
                if schema cred \<noteq> [] then
                  (case cursor h w1 of
                     (w2, Inl e) \<Rightarrow> (w2, Inl e)
                   | (w2, Inr u) \<Rightarrow>
                       (case execute srv h (SetSearchPath (schema cred)) w2 of
                          (w3, Inl e) \<Rightarrow> (w3, Inl e)
                        | (w3, Inr u) \<Rightarrow>
                            (logger_info (''Schema set to '' @ schema cred) w3, Inr h)))
                else (w1, Inr h)) of
        (w', Inl e) \<Rightarrow>
          (logger_error ''Error getting connection: '' (External e) w',
           Inl (ConnectionError (Wrapped e)))
      | (w', Inr h) \<Rightarrow> (w', Inr h))"

definition create_connection ::
  "server \<Rightarrow> (string \<Rightarrow> int option) \<Rightarrow> (string \<rightharpoonup> string) \<Rightarrow> world \<Rightarrow> world \<times> (exn + nat)" where
  "create_connection srv py_int env w =
     (case PostgresCredentials py_int env of
        Inl x \<Rightarrow> (w, Inl x)
      | Inr cred \<Rightarrow> get_connection srv cred w)"

section \<open>Queries, updates and views\<close>

text \<open>
  The \<open>connection\<close> argument is \<open>None\<close> or a connection object (a handle); a connection
  object is truthy whether open or closed. A data frame is its column names and
  \<open>dataframe.values.tolist()\<close>.
\<close>

record dataframe =
  columns :: "string list"
  values_tolist :: "cell list list"

text \<open>
  \<open>query_database\<close>. \<open>pd.read_sql(query, connection, params=params)\<close> is pandas' and is
  the parameter \<open>read_sql\<close>.
\<close>

definition query_database ::
  "(string \<Rightarrow> nat \<Rightarrow> cell list option \<Rightarrow> world \<Rightarrow> world \<times> (lib_error + dataframe))
     \<Rightarrow> nat option \<Rightarrow> string \<Rightarrow> cell list option \<Rightarrow> bool \<Rightarrow> world
     \<Rightarrow> world \<times> (exn + dataframe)" where
  "query_database read_sql connection query params close_connection w =
     (case connection of
        None \<Rightarrow> (w, Inl (ConnectionError (Message ''No connection to database.'')))
      | Some h \<Rightarrow>
          finally_close h close_connection
            (except_log ''Query execution error: ''
               (and_then (raised (read_sql query h params w)) (\<lambda>df w1.
                  (logger_info ''Query executed successfully.'' w1, Inr df)))))"

definition update_records ::
  "server \<Rightarrow> nat option \<Rightarrow> string \<Rightarrow> cell list option \<Rightarrow> bool \<Rightarrow> world
     \<Rightarrow> world \<times> (exn + unit)" where
  "update_records srv connection update_query params close_connection w =
     (case connection of
        None \<Rightarrow> (w, Inl (ConnectionError (Message ''No connection to database.'')))
      | Some h \<Rightarrow>
          finally_close h close_connection
            (except_rollback srv h ''Update query execution error: ''
               (and_then (raised (cursor h w)) (\<lambda>u w1.
                and_then (raised (execute srv h (Sql update_query params) w1)) (\<lambda>u w2.
                and_then (raised (commit srv h w2)) (\<lambda>u w3.
                  (logger_info ''Update query executed successfully.'' w3, Inr ())))))))"

definition create_view ::
  "server \<Rightarrow> nat option \<Rightarrow> string \<Rightarrow> string \<Rightarrow> bool \<Rightarrow> world \<Rightarrow> world \<times> (exn + unit)" where
  "create_view srv connection view_name view_query close_connection w =
     (case connection of
        None \<Rightarrow> (w, Inl (ConnectionError (Message ''No connection to database.'')))
      | Some h \<Rightarrow>
          finally_close h close_connection
            (except_rollback srv h
               (''Error creating view '' @ [CHR 0x27] @ view_name @ [CHR 0x27] @ '': '')
               (and_then (raised (cursor h w)) (\<lambda>u w1.
                and_then (raised (execute srv h (CreateOrReplaceView view_name view_query) w1))
                  (\<lambda>u w2.
                and_then (raised (commit srv h w2)) (\<lambda>u w3.
                  (logger_info
                     (''View '' @ [CHR 0x27] @ view_name @ [CHR 0x27] @ '' created successfully.'')
                     w3,
                   Inr ())))))))"

section \<open>Provisioning\<close>

text \<open>
  \<open>create_table\<close> and \<open>populate_table\<close> do not test their connection: on \<open>None\<close> the
  call \<open>connection.cursor()\<close> raises \<open>AttributeError\<close> inside the \<open>try\<close>. Neither rolls
  back or closes.
\<close>

definition create_table :: "server \<Rightarrow> nat option \<Rightarrow> string \<Rightarrow> world \<Rightarrow> world \<times> (exn + unit)" where
  "create_table srv connection tname w =
     except_log ''Error in creating table: ''
       (case connection of
          None \<Rightarrow> (w, Inl AttributeError)
        | Some h \<Rightarrow>
            and_then (raised (cursor h w)) (\<lambda>u w1.
            and_then (raised (execute srv h (CreateTableIfNotExists tname) w1)) (\<lambda>u w2.
            and_then (raised (commit srv h w2)) (\<lambda>u w3.
              (logger_info
                 (''Table '' @ [CHR 0x27] @ tname @ [CHR 0x27] @ '' created successfully.'') w3,
               Inr ())))))"

text \<open>The loop \<open>for col in dataframe.columns: cursor.execute(alter_table_query)\<close>.\<close>

fun add_columns ::
  "server \<Rightarrow> nat \<Rightarrow> string \<Rightarrow> string list \<Rightarrow> world \<Rightarrow> world \<times> (exn + unit)" where
  "add_columns srv h tname [] w = (w, Inr ())"
| "add_columns srv h tname (col # cs) w =
     (case execute srv h (AddColumnIfNotExists tname col) w of
        (w', Inl e) \<Rightarrow> (w', Inl (External e))
      | (w', Inr u) \<Rightarrow> add_columns srv h tname cs w')"

text \<open>
  \<open>cursor.executemany(insert_query, rows)\<close>: the statement once for each row, in order;
  no row, no statement.
\<close>

fun executemany ::
  "server \<Rightarrow> nat \<Rightarrow> string \<Rightarrow> string list \<Rightarrow> cell list list \<Rightarrow> world
     \<Rightarrow> world \<times> (exn + unit)" where
  "executemany srv h tname cs [] w = (w, Inr ())"
| "executemany srv h tname cs (r # rs) w =
     (case execute srv h (InsertInto tname cs r) w of
        (w', Inl e) \<Rightarrow> (w', Inl (External e))
      | (w', Inr u) \<Rightarrow> executemany srv h tname cs rs w')"

definition populate_table ::
  "server \<Rightarrow> nat option \<Rightarrow> string \<Rightarrow> dataframe \<Rightarrow> world \<Rightarrow> world \<times> (exn + unit)" where
  "populate_table srv connection tname df w =
     except_log ''Error in populating table: ''
       (case connection of
          None \<Rightarrow> (w, Inl AttributeError)
        | Some h \<Rightarrow>
            and_then (raised (cursor h w)) (\<lambda>u w1.
            and_then (add_columns srv h tname (columns df) w1) (\<lambda>u w2.
            and_then (executemany srv h tname (columns df) (values_tolist df) w2) (\<lambda>u w3.
            and_then (raised (commit srv h w3)) (\<lambda>u w4.
              (logger_info
                 (''Data inserted into table '' @ [CHR 0x27] @ tname @ [CHR 0x27]
                    @ '' successfully.'') w4,
               Inr ()))))))"

text \<open>The column names of a table of a database; none for a table that does not exist.\<close>

definition column_set :: "db \<Rightarrow> string \<Rightarrow> string set" where
  "column_set d t = (case d t of None \<Rightarrow> {} | Some tb \<Rightarrow> set (cols tb))"

section \<open>Worlds to run the module in\<close>

text \<open>A server that accepts every connection and refuses nothing; its views and the caller's
  statements change no table.\<close>

definition plain_server :: server where
  "plain_server = \<lparr> accept = (\<lambda>cred. None), run = (\<lambda>s d. d), fault = (\<lambda>cs h c. None) \<rparr>"

text \<open>A server that accepts every connection and refuses every statement it is asked to run.\<close>

definition refusing_server :: server where
  "refusing_server =
     \<lparr> accept = (\<lambda>cred. None), run = (\<lambda>s d. d),
       fault = (\<lambda>cs h c. case c of Execute s \<Rightarrow> Some (OperationalError ''refused'')
                               | _ \<Rightarrow> None) \<rparr>"

text \<open>A server that refuses, as a syntax error, to add a column that has no name.\<close>

definition strict_server :: server where
  "strict_server =
     \<lparr> accept = (\<lambda>cred. None), run = (\<lambda>s d. d),
       fault = (\<lambda>cs h c. case c of
                            Execute s \<Rightarrow>
                              (case s of
                                 AddColumnIfNotExists t col \<Rightarrow>
                                   if col = [] then Some SyntaxError else None
                               | _ \<Rightarrow> None)
                          | _ \<Rightarrow> None) \<rparr>"

text \<open>A server that runs every statement and refuses every commit.\<close>

definition commit_refusing_server :: server where
  "commit_refusing_server =
     \<lparr> accept = (\<lambda>cred. None), run = (\<lambda>s d. d),
       fault = (\<lambda>cs h c. case c of Commit \<Rightarrow> Some (OperationalError ''commit refused'')
                               | _ \<Rightarrow> None) \<rparr>"

text \<open>No session yet, and a database with the given tables.\<close>

definition fresh_world :: "db \<Rightarrow> world" where
  "fresh_world d =
     \<lparr> committed = d,
       sessions = (\<lambda>h. \<lparr> closed = True, aborted = False, pending = [] \<rparr>), opened = 0,
       calls = [], logged = [] \<rparr>"

text \<open>The same with session \<open>0\<close> open, as \<open>psycopg2.connect\<close> leaves it.\<close>

definition open_world :: "db \<Rightarrow> world" where
  "open_world d =
     \<lparr> committed = d,
       sessions = (\<lambda>h. if h = 0 then \<lparr> closed = False, aborted = False, pending = [] \<rparr>
                       else \<lparr> closed = True, aborted = False, pending = [] \<rparr>),
       opened = 1, calls = [(0, Connect)], logged = [] \<rparr>"

definition empty_table :: table where
  "empty_table = \<lparr> cols = [], rows = [] \<rparr>"

section \<open>Shapes shared by the proofs, and inputs to run the module on\<close>

text \<open>
  The body of the \<open>try\<close> block that \<open>update_records\<close>, \<open>create_view\<close> and
  \<open>create_table\<close> have in common: a cursor, one statement, the commit, a log line.
\<close>

definition transaction :: "server \<Rightarrow> nat \<Rightarrow> stmt \<Rightarrow> string \<Rightarrow> world \<Rightarrow> world \<times> (exn + unit)" where
  "transaction srv h s msg w =
     and_then (raised (cursor h w)) (\<lambda>u w1.
     and_then (raised (execute srv h s w1)) (\<lambda>u w2.
     and_then (raised (commit srv h w2)) (\<lambda>u w3. (logger_info msg w3, Inr ()))))"

text \<open>The calls of a \<open>populate_table\<close> that runs to its end, in order.\<close>

definition populate_calls :: "nat \<Rightarrow> string \<Rightarrow> dataframe \<Rightarrow> (nat \<times> call) list" where
  "populate_calls h tname df =
     [(h, Cursor)]
     @ map (\<lambda>c. (h, Execute (AddColumnIfNotExists tname c))) (columns df)
     @ map (\<lambda>row. (h, Execute (InsertInto tname (columns df) row))) (values_tolist df)
     @ [(h, Commit)]"

text \<open>The two data frames of the end-to-end scenario, and one with an unnamed column.\<close>

definition first_frame :: dataframe where
  "first_frame = \<lparr> columns = [''a'', ''b''], values_tolist = [ [Text ''x'', Text ''y''] ] \<rparr>"

definition second_frame :: dataframe where
  "second_frame = \<lparr> columns = [''b'', ''c''], values_tolist = [ [Text ''y2'', Text ''z''] ] \<rparr>"



text \<open>A \<open>read_sql\<close> that fails, and one that returns an empty frame.\<close>

definition failing_read_sql ::
  "string \<Rightarrow> nat \<Rightarrow> cell list option \<Rightarrow> world \<Rightarrow> world \<times> (lib_error + dataframe)" where
  "failing_read_sql q h ps w = (w, Inl (OperationalError ''refused''))"

definition empty_read_sql ::
  "string \<Rightarrow> nat \<Rightarrow> cell list option \<Rightarrow> world \<Rightarrow> world \<times> (lib_error + dataframe)" where
  "empty_read_sql q h ps w = (w, Inr \<lparr> columns = [], values_tolist = [] \<rparr>)"

text \<open>A reflection that knows the table \<open>users\<close> only.\<close>

definition partial_reflect :: "string \<Rightarrow> string \<Rightarrow> metadata \<Rightarrow> lib_error + metadata" where
  "partial_reflect sch t m =
     (if t = ''users'' then Inr (m @ [(t, \<lparr> table_name = t, table_columns = [] \<rparr>)])
      else Inl (OperationalError ''no such table''))"

definition stale_cache :: metadata_cache_obj where
  "stale_cache =
     \<lparr> cache_schema = ''public'', cache_tables = [''users'', ''orders''],
       metadata_cache = Some [(''old'', \<lparr> table_name = ''old'', table_columns = [] \<rparr>)] \<rparr>"

text \<open>Credentials with a schema, so that the search path is set.\<close>

definition schema_credentials :: credentials where
  "schema_credentials =
     \<lparr> host = Some ''localhost'', database = Some ''app'', user = Some ''u'',
       password = Some ''p'', port = 5432, schema = ''ai'', tables = [''''] \<rparr>"

text \<open>
  Two connections opened one after the other with these credentials, to a database
  whose table \<open>t1\<close> has no column yet.
\<close>

definition two_connections :: world where
  "two_connections =
     fst (get_connection plain_server schema_credentials
            (fst (get_connection plain_server schema_credentials
                    (fresh_world [''t1'' \<mapsto> empty_table]))))"

section \<open>The driver calls, one at a time\<close>

lemma sessions_logger_info [simp]: "sessions (logger_info msg w) = sessions w"
  by (simp add: logger_info_def)

lemma calls_logger_info [simp]: "calls (logger_info msg w) = calls w"
  by (simp add: logger_info_def)

lemma committed_logger_info [simp]: "committed (logger_info msg w) = committed w"
  by (simp add: logger_info_def)

lemma sessions_logger_error [simp]: "sessions (logger_error msg x w) = sessions w"
  by (simp add: logger_error_def)

lemma calls_logger_error [simp]: "calls (logger_error msg x w) = calls w"
  by (simp add: logger_error_def)

lemma committed_logger_error [simp]: "committed (logger_error msg x w) = committed w"
  by (simp add: logger_error_def)

lemma sessions_called [simp]: "sessions (called h c w) = sessions w"
  by (simp add: called_def)

lemma calls_called [simp]: "calls (called h c w) = calls w @ [(h, c)]"
  by (simp add: called_def)

lemma committed_called [simp]: "committed (called h c w) = committed w"
  by (simp add: called_def)

lemma sessions_with_session [simp]: "sessions (with_session h ss w) k = (if k = h then ss else sessions w k)"
  by (simp add: with_session_def)

lemma calls_with_session [simp]: "calls (with_session h ss w) = calls w"
  by (simp add: with_session_def)

lemma committed_with_session [simp]: "committed (with_session h ss w) = committed w"
  by (simp add: with_session_def)

lemma view_called [simp]: "view srv (called h c w) k = view srv w k"
  by (simp add: view_def)

lemma view_logger_info [simp]: "view srv (logger_info msg w) k = view srv w k"
  by (simp add: view_def)

lemma view_logger_error [simp]: "view srv (logger_error msg x w) k = view srv w k"
  by (simp add: view_def)

lemma view_no_pending: "pending (sessions w h) = [] \<Longrightarrow> view srv w h = committed w"
  by (simp add: view_def)

lemma closed_close [simp]: "closed (sessions (close h w) h)"
  by (simp add: close_def)

lemma calls_close [simp]: "calls (close h w) = calls w @ [(h, Close)]"
  by (simp add: close_def)

lemma committed_close [simp]: "committed (close h w) = committed w"
  by (simp add: close_def)

lemma pending_close [simp]: "pending (sessions (close h w) h) = []"
  by (simp add: close_def)

lemma aborted_close [simp]: "\<not> aborted (sessions (close h w) h)"
  by (simp add: close_def)

lemma cursor_closed: "closed (sessions w h) \<Longrightarrow> cursor h w = (called h Cursor w, Inl InterfaceError)"
  by (simp add: cursor_def)

lemma cursor_open: "\<not> closed (sessions w h) \<Longrightarrow> cursor h w = (called h Cursor w, Inr ())"
  by (simp add: cursor_def)

text \<open>What every execute does, and what its two outcomes tell.\<close>

lemma execute_calls: "calls (fst (execute srv h s w)) = calls w @ [(h, Execute s)]"
  by (simp add: execute_def split: option.split sum.split)

lemma execute_committed: "committed (fst (execute srv h s w)) = committed w"
  by (simp add: execute_def split: option.split sum.split)

lemma execute_closed_same: "closed (sessions (fst (execute srv h s w)) k) = closed (sessions w k)"
  by (simp add: execute_def split: option.split sum.split)

lemma execute_others: "k \<noteq> h \<Longrightarrow> sessions (fst (execute srv h s w)) k = sessions w k"
  by (simp add: execute_def split: option.split sum.split)

lemma execute_Inr:
  assumes "execute srv h s w = (w', Inr u)"
  shows "\<not> closed (sessions w h)" and "\<not> aborted (sessions w h)" and "\<not> aborted (sessions w' h)"
    and "fault srv (calls w) h (Execute s) = None"
    and "exec_stmt srv (view srv w h) s = Inr (view srv w' h)"
    and "pending (sessions w' h) = pending (sessions w h) @ [s]"
  using assms
  by (auto simp: execute_def view_def apply_stmt_def split: if_splits option.splits sum.splits)

lemma execute_Inl:
  assumes "execute srv h s w = (w', Inl e)" and "\<not> closed (sessions w h)"
  shows "aborted (sessions w' h)"
  using assms
  by (auto simp: execute_def split: if_splits option.splits sum.splits)

lemma execute_refused:
  "\<not> closed (sessions w h) \<Longrightarrow> \<not> aborted (sessions w h) \<Longrightarrow>
   fault srv (calls w) h (Execute s) = None \<Longrightarrow> exec_stmt srv (view srv w h) s = Inl e \<Longrightarrow>
   snd (execute srv h s w) = Inl e"
  by (simp add: execute_def)

lemma execute_fault:
  "\<not> closed (sessions w h) \<Longrightarrow> \<not> aborted (sessions w h) \<Longrightarrow>
   fault srv (calls w) h (Execute s) = Some e \<Longrightarrow> snd (execute srv h s w) = Inl e"
  by (simp add: execute_def)

text \<open>The same for commit and rollback.\<close>

lemma commit_calls: "calls (fst (commit srv h w)) = calls w @ [(h, Commit)]"
  by (simp add: commit_def split: option.split)

lemma commit_closed_same: "closed (sessions (fst (commit srv h w)) k) = closed (sessions w k)"
  by (simp add: commit_def idle_def split: option.split)

lemma commit_Inr:
  assumes "commit srv h w = (w', Inr u)"
  shows "committed w' = (if aborted (sessions w h) then committed w else view srv w h)"
    and "pending (sessions w' h) = []" and "\<not> aborted (sessions w' h)"
    and "\<not> closed (sessions w h)"
  using assms
  by (auto simp: commit_def idle_def split: if_splits option.splits)

lemma commit_Inl:
  assumes "commit srv h w = (w', Inl e)"
  shows "committed w' = committed w"
  using assms
  by (auto simp: commit_def split: if_splits option.splits)

lemma commit_over:
  assumes "commit srv h w = (w', r)" and "\<not> closed (sessions w h)"
  shows "pending (sessions w' h) = []" and "\<not> aborted (sessions w' h)"
  using assms
  by (auto simp: commit_def idle_def split: if_splits option.splits)

lemma rollback_calls: "calls (fst (rollback srv h w)) = calls w @ [(h, Rollback)]"
  by (simp add: rollback_def split: option.split)

lemma rollback_committed: "committed (fst (rollback srv h w)) = committed w"
  by (simp add: rollback_def split: option.split)

lemma rollback_closed_same: "closed (sessions (fst (rollback srv h w)) k) = closed (sessions w k)"
  by (simp add: rollback_def idle_def split: option.split)

lemma rollback_done:
  assumes "\<not> closed (sessions w h)" and "fault srv (calls w) h Rollback = None"
  shows "pending (sessions (fst (rollback srv h w)) h) = []"
    and "\<not> aborted (sessions (fst (rollback srv h w)) h)"
  using assms by (simp_all add: rollback_def idle_def)

lemma rollback_keeps_idle:
  assumes "pending (sessions w h) = []" and "\<not> aborted (sessions w h)"
  shows "pending (sessions (fst (rollback srv h w)) h) = []"
    and "\<not> aborted (sessions (fst (rollback srv h w)) h)"
  using assms by (simp_all add: rollback_def idle_def split: option.split)

section \<open>The shared try block, by cases\<close>

lemma transaction_run:
  assumes "transaction srv h s msg w = (w1, r)"
  shows "closed (sessions w1 h) = closed (sessions w h)"
    and "r = Inr () \<Longrightarrow>
           calls w1 = calls w @ [(h, Cursor), (h, Execute s), (h, Commit)]
           \<and> exec_stmt srv (view srv w h) s = Inr (committed w1)
           \<and> pending (sessions w1 h) = [] \<and> \<not> aborted (sessions w1 h)
           \<and> \<not> closed (sessions w h)"
    and "r = Inl x \<Longrightarrow>
           (\<exists>e. x = External e) \<and> committed w1 = committed w
           \<and> (\<exists>tried rest. [(h, Cursor), (h, Execute s), (h, Commit)] = tried @ rest
                  \<and> tried \<noteq> [] \<and> calls w1 = calls w @ tried)"
proof -
  have "closed (sessions w1 h) = closed (sessions w h)
      \<and> (r = Inr () \<longrightarrow>
           calls w1 = calls w @ [(h, Cursor), (h, Execute s), (h, Commit)]
           \<and> exec_stmt srv (view srv w h) s = Inr (committed w1)
           \<and> pending (sessions w1 h) = [] \<and> \<not> aborted (sessions w1 h)
           \<and> \<not> closed (sessions w h))
      \<and> (r = Inl x \<longrightarrow>
           (\<exists>e. x = External e) \<and> committed w1 = committed w
           \<and> (\<exists>tried rest. [(h, Cursor), (h, Execute s), (h, Commit)] = tried @ rest
                  \<and> tried \<noteq> [] \<and> calls w1 = calls w @ tried))"
  proof (cases "closed (sessions w h)")
    case True
    with assms have "w1 = called h Cursor w" "r = Inl (External InterfaceError)"
      by (simp_all add: transaction_def and_then_def raised_def cursor_closed)
    with True show ?thesis
      by (auto intro!: exI [of _ "[(h, Cursor)]"])
  next
    case False
    let ?wc = "called h Cursor w"
    obtain w2 r2 where ex: "execute srv h s ?wc = (w2, r2)"
      by (cases "execute srv h s ?wc")
    have f2: "calls w2 = calls w @ [(h, Cursor), (h, Execute s)]"
      "committed w2 = committed w" "closed (sessions w2 h) = closed (sessions w h)"
      using execute_calls [of srv h s ?wc] execute_committed [of srv h s ?wc]
        execute_closed_same [of srv h s ?wc h] ex by simp_all
    show ?thesis
    proof (cases r2)
      case (Inl e)
      with assms False ex have "w1 = w2" "r = Inl (External e)"
        by (simp_all add: transaction_def and_then_def raised_def cursor_open)
      with f2 False show ?thesis
        by (auto intro!: exI [of _ "[(h, Cursor), (h, Execute s)]"])
    next
      case (Inr u2)
      note ok = execute_Inr [OF ex [unfolded Inr] ]
      obtain w3 r3 where co: "commit srv h w2 = (w3, r3)"
        by (cases "commit srv h w2")
      have f3: "calls w3 = calls w @ [(h, Cursor), (h, Execute s), (h, Commit)]"
        "closed (sessions w3 h) = closed (sessions w h)"
        using commit_calls [of srv h w2] commit_closed_same [of srv h w2 h] co f2 by simp_all
      show ?thesis
      proof (cases r3)
        case (Inl e)
        with assms False ex Inr co have "w1 = w3" "r = Inl (External e)"
          by (simp_all add: transaction_def and_then_def raised_def cursor_open)
        moreover from commit_Inl [OF co [unfolded Inl] ] f2 have "committed w3 = committed w"
          by simp
        ultimately show ?thesis using f3
          by (auto intro!: exI [of _ "[(h, Cursor), (h, Execute s), (h, Commit)]"])
      next
        case (Inr u3)
        with assms False ex \<open>r2 = Inr u2\<close> co have w1: "w1 = logger_info msg w3" "r = Inr ()"
          by (simp_all add: transaction_def and_then_def raised_def cursor_open)
        from commit_Inr [OF co [unfolded Inr] ] ok have
          "committed w3 = view srv w2 h" "pending (sessions w3 h) = []"
          "\<not> aborted (sessions w3 h)"
          by simp_all
        with ok(5) w1 f3 False show ?thesis
          by simp
      qed
    qed
  qed
  then show "closed (sessions w1 h) = closed (sessions w h)"
    and "r = Inr () \<Longrightarrow>
           calls w1 = calls w @ [(h, Cursor), (h, Execute s), (h, Commit)]
           \<and> exec_stmt srv (view srv w h) s = Inr (committed w1)
           \<and> pending (sessions w1 h) = [] \<and> \<not> aborted (sessions w1 h)
           \<and> \<not> closed (sessions w h)"
    and "r = Inl x \<Longrightarrow>
           (\<exists>e. x = External e) \<and> committed w1 = committed w
           \<and> (\<exists>tried rest. [(h, Cursor), (h, Execute s), (h, Commit)] = tried @ rest
                  \<and> tried \<noteq> [] \<and> calls w1 = calls w @ tried)"
    by blast+
qed

lemma transaction_discipline:
  assumes "finally_close h cc (except_rollback srv h emsg (transaction srv h s msg w)) = (w', r)"
  shows "(r = Inr () \<longrightarrow>
            calls w' = calls w @ [(h, Cursor), (h, Execute s), (h, Commit)]
                         @ (if cc then [(h, Close)] else [])
          \<and> exec_stmt srv (view srv w h) s = Inr (committed w')
          \<and> pending (sessions w' h) = [] \<and> \<not> aborted (sessions w' h))
       \<and> (\<forall>x. r = Inl x \<longrightarrow>
            committed w' = committed w
          \<and> (\<exists>e. x = External e)
          \<and> (\<exists>tried rest.
                [(h, Cursor), (h, Execute s), (h, Commit)] = tried @ rest \<and> tried \<noteq> []
              \<and> calls w' = calls w @ tried @ [(h, Rollback)] @ (if cc then [(h, Close)] else [])
              \<and> (cc \<or> (\<not> closed (sessions w h)
                         \<and> fault srv (calls w @ tried) h Rollback = None) \<longrightarrow>
                   pending (sessions w' h) = [] \<and> \<not> aborted (sessions w' h))))
       \<and> closed (sessions w' h) = (closed (sessions w h) \<or> cc)"
proof -
  obtain w1 r1 where tr: "transaction srv h s msg w = (w1, r1)"
    by (cases "transaction srv h s msg w")
  note run = transaction_run [OF tr]
  show ?thesis
  proof (cases r1)
    case (Inr u)
    with assms tr have w': "w' = (if cc then logger_info ''Database connection closed.'' (close h w1)
                                  else w1)" and r: "r = Inr ()"
      by (auto simp: finally_close_def except_rollback_def split: if_splits)
    from run(2) Inr have "calls w1 = calls w @ [(h, Cursor), (h, Execute s), (h, Commit)]"
      "exec_stmt srv (view srv w h) s = Inr (committed w1)"
      "pending (sessions w1 h) = []" "\<not> aborted (sessions w1 h)" "\<not> closed (sessions w h)"
      by simp_all
    with w' r run(1) show ?thesis
      by auto
  next
    case (Inl x1)
    obtain w2 r2 where rb: "rollback srv h w1 = (w2, r2)"
      by (cases "rollback srv h w1")
    from run(3) [OF Inl] obtain tried rest where
      x1: "\<exists>e. x1 = External e" and c1: "committed w1 = committed w" and
      tried: "[(h, Cursor), (h, Execute s), (h, Commit)] = tried @ rest" "tried \<noteq> []"
        "calls w1 = calls w @ tried"
      by blast
    have f2: "calls w2 = calls w @ tried @ [(h, Rollback)]" "committed w2 = committed w"
      "closed (sessions w2 h) = closed (sessions w h)"
      using rollback_calls [of srv h w1] rollback_committed [of srv h w1]
        rollback_closed_same [of srv h w1 h] rb tried(3) c1 run(1) by simp_all
    have idle2: "\<not> closed (sessions w h) \<and> fault srv (calls w @ tried) h Rollback = None \<longrightarrow>
                 pending (sessions w2 h) = [] \<and> \<not> aborted (sessions w2 h)"
      using rollback_done [of w1 h srv] rb run(1) tried(3) by auto
    from assms tr Inl rb obtain x where
      w': "w' = (if cc then logger_info ''Database connection closed.''
                              (close h (case r2 of Inl e \<Rightarrow> w2
                                        | Inr u \<Rightarrow> logger_error emsg x1 w2))
                 else (case r2 of Inl e \<Rightarrow> w2 | Inr u \<Rightarrow> logger_error emsg x1 w2))"
      and r: "r = Inl x" and x: "\<exists>e. x = External e"
      using x1
      by (cases r2) (auto simp: finally_close_def except_rollback_def split: if_splits)
    have core: "calls w' = calls w @ tried @ [(h, Rollback)] @ (if cc then [(h, Close)] else [])"
      "committed w' = committed w" "closed (sessions w' h) = (closed (sessions w h) \<or> cc)"
      "cc \<or> (\<not> closed (sessions w h) \<and> fault srv (calls w @ tried) h Rollback = None) \<longrightarrow>
         pending (sessions w' h) = [] \<and> \<not> aborted (sessions w' h)"
      using f2 idle2 by (cases r2; cases cc; simp add: w')+
    with r x tried(1,2) show ?thesis
      by blast
  qed
qed

lemma update_records_transaction:
  "update_records srv (Some h) q ps cc w =
     finally_close h cc
       (except_rollback srv h ''Update query execution error: ''
          (transaction srv h (Sql q ps) ''Update query executed successfully.'' w))"
  by (simp add: update_records_def transaction_def)

lemma create_view_transaction:
  "create_view srv (Some h) v vq cc w =
     finally_close h cc
       (except_rollback srv h (''Error creating view '' @ [CHR 0x27] @ v @ [CHR 0x27] @ '': '')
          (transaction srv h (CreateOrReplaceView v vq)
             (''View '' @ [CHR 0x27] @ v @ [CHR 0x27] @ '' created successfully.'') w))"
  by (simp add: create_view_def transaction_def)

lemma create_table_transaction:
  "create_table srv (Some h) t w =
     except_log ''Error in creating table: ''
       (transaction srv h (CreateTableIfNotExists t)
          (''Table '' @ [CHR 0x27] @ t @ [CHR 0x27] @ '' created successfully.'') w)"
  by (simp add: create_table_def transaction_def)

lemma transaction_External:
  "finally_close h cc (except_rollback srv h emsg (transaction srv h s msg w)) = (w', Inl x)
   \<Longrightarrow> \<exists>e. x = External e"
  using transaction_discipline [of h cc srv emsg s msg w w' "Inl x"] by blast

lemma create_table_External:
  assumes "create_table srv (Some h) t w = (w', Inl x)"
  shows "\<exists>e. x = External e"
proof -
  let ?msg = "''Table '' @ [CHR 0x27] @ t @ [CHR 0x27] @ '' created successfully.''"
  obtain w1 r1 where t: "transaction srv h (CreateTableIfNotExists t) ?msg w = (w1, r1)"
    by (cases "transaction srv h (CreateTableIfNotExists t) ?msg w")
  with assms have "r1 = Inl x"
    by (cases r1) (simp_all add: create_table_transaction except_log_def)
  with transaction_run(3) [OF t] show ?thesis by blast
qed

lemma query_database_External:
  assumes "query_database read_sql (Some h) q ps cc w = (w', Inl x)"
  shows "\<exists>e. x = External e"
proof (cases "read_sql q h ps w")
  case (Pair w1 res)
  with assms show ?thesis
    by (cases res)
       (auto simp: query_database_def finally_close_def except_log_def and_then_def raised_def
          split: if_splits)
qed

section \<open>The loops of populate_table\<close>

lemma column_set_add_column:
  "exec_stmt srv d (AddColumnIfNotExists t c) = Inr d' \<Longrightarrow>
   column_set d' t = insert c (column_set d t)"
  by (auto simp: column_set_def split: if_splits option.splits)

lemma column_set_insert_into:
  "exec_stmt srv d (InsertInto t cs vs) = Inr d' \<Longrightarrow> column_set d' t = column_set d t"
  by (auto simp: column_set_def split: if_splits option.splits)

lemma view_search_path_only:
  "set ss \<subseteq> range SetSearchPath \<Longrightarrow> foldl (apply_stmt srv) d ss = d"
  by (induction ss arbitrary: d) (auto simp: apply_stmt_def)

lemma view_committed:
  "set (pending (sessions w h)) \<subseteq> range SetSearchPath \<Longrightarrow> view srv w h = committed w"
  by (simp add: view_def view_search_path_only)

lemma add_columns_frame:
  "add_columns srv h t cs w = (w', r) \<Longrightarrow>
   committed w' = committed w
   \<and> closed (sessions w' h) = closed (sessions w h)
   \<and> (\<forall>k. k \<noteq> h \<longrightarrow> sessions w' k = sessions w k)
   \<and> (\<exists>made. take (length made) cs = made
         \<and> calls w' = calls w @ map (\<lambda>c. (h, Execute (AddColumnIfNotExists t c))) made
         \<and> (r = Inr () \<longrightarrow> made = cs)
         \<and> (\<forall>x. r = Inl x \<longrightarrow> made \<noteq> [] \<and> (\<exists>e. x = External e)
                \<and> (\<not> closed (sessions w h) \<longrightarrow> aborted (sessions w' h))))"
proof (induction cs arbitrary: w)
  case Nil
  then show ?case by auto
next
  case (Cons c cs)
  let ?s = "AddColumnIfNotExists t c"
  obtain w1 r1 where ex: "execute srv h ?s w = (w1, r1)"
    by (cases "execute srv h ?s w")
  have f1: "calls w1 = calls w @ [(h, Execute ?s)]"
    "committed w1 = committed w" "closed (sessions w1 h) = closed (sessions w h)"
    "\<forall>k. k \<noteq> h \<longrightarrow> sessions w1 k = sessions w k"
    using execute_calls [of srv h ?s w] execute_committed [of srv h ?s w]
      execute_closed_same [of srv h ?s w h] execute_others [of _ h srv ?s w] ex by simp_all
  show ?case
  proof (cases r1)
    case (Inl e)
    with Cons.prems ex have "w' = w1" "r = Inl (External e)" by simp_all
    moreover from ex Inl have "\<not> closed (sessions w h) \<longrightarrow> aborted (sessions w1 h)"
      using execute_Inl by blast
    ultimately show ?thesis using f1
      by (auto intro!: exI [of _ "[c]"])
  next
    case (Inr u)
    with Cons.prems ex have "add_columns srv h t cs w1 = (w', r)" by simp
    from Cons.IH [OF this] obtain made where
      "committed w' = committed w1" "closed (sessions w' h) = closed (sessions w1 h)"
      "\<forall>k. k \<noteq> h \<longrightarrow> sessions w' k = sessions w1 k"
      "take (length made) cs = made"
      "calls w' = calls w1 @ map (\<lambda>c. (h, Execute (AddColumnIfNotExists t c))) made"
      "r = Inr () \<longrightarrow> made = cs"
      "\<forall>x. r = Inl x \<longrightarrow> made \<noteq> [] \<and> (\<exists>e. x = External e)
                \<and> (\<not> closed (sessions w1 h) \<longrightarrow> aborted (sessions w' h))"
      by blast
    with f1 show ?thesis
      by (auto intro!: exI [of _ "c # made"])
  qed
qed

lemma add_columns_Inr:
  "add_columns srv h t cs w = (w', Inr u) \<Longrightarrow>
   column_set (view srv w' h) t = column_set (view srv w h) t \<union> set cs
   \<and> aborted (sessions w' h) = aborted (sessions w h)
   \<and> (aborted (sessions w h) \<longrightarrow> cs = [])"
proof (induction cs arbitrary: w)
  case Nil
  then show ?case by simp
next
  case (Cons c cs)
  let ?s = "AddColumnIfNotExists t c"
  obtain w1 r1 where ex: "execute srv h ?s w = (w1, r1)"
    by (cases "execute srv h ?s w")
  with Cons.prems obtain u1 where r1: "r1 = Inr u1" and
    rest: "add_columns srv h t cs w1 = (w', Inr u)"
    by (cases r1) simp_all
  note ok = execute_Inr [OF ex [unfolded r1] ]
  from ok(5) have "column_set (view srv w1 h) t = insert c (column_set (view srv w h) t)"
    by (rule column_set_add_column)
  with Cons.IH [OF rest] ok(2,3) show ?case by auto
qed

lemma executemany_frame:
  "executemany srv h t cs rs w = (w', r) \<Longrightarrow>
   committed w' = committed w
   \<and> closed (sessions w' h) = closed (sessions w h)
   \<and> (\<forall>k. k \<noteq> h \<longrightarrow> sessions w' k = sessions w k)
   \<and> (\<exists>made. take (length made) rs = made
         \<and> calls w' = calls w @ map (\<lambda>row. (h, Execute (InsertInto t cs row))) made
         \<and> (r = Inr () \<longrightarrow> made = rs)
         \<and> (\<forall>x. r = Inl x \<longrightarrow> made \<noteq> [] \<and> (\<exists>e. x = External e)
                \<and> (\<not> closed (sessions w h) \<longrightarrow> aborted (sessions w' h))))"
proof (induction rs arbitrary: w)
  case Nil
  then show ?case by auto
next
  case (Cons row rs)
  let ?s = "InsertInto t cs row"
  obtain w1 r1 where ex: "execute srv h ?s w = (w1, r1)"
    by (cases "execute srv h ?s w")
  have f1: "calls w1 = calls w @ [(h, Execute ?s)]"
    "committed w1 = committed w" "closed (sessions w1 h) = closed (sessions w h)"
    "\<forall>k. k \<noteq> h \<longrightarrow> sessions w1 k = sessions w k"
    using execute_calls [of srv h ?s w] execute_committed [of srv h ?s w]
      execute_closed_same [of srv h ?s w h] execute_others [of _ h srv ?s w] ex by simp_all
  show ?case
  proof (cases r1)
    case (Inl e)
    with Cons.prems ex have "w' = w1" "r = Inl (External e)" by simp_all
    moreover from ex Inl have "\<not> closed (sessions w h) \<longrightarrow> aborted (sessions w1 h)"
      using execute_Inl by blast
    ultimately show ?thesis using f1
      by (auto intro!: exI [of _ "[row]"])
  next
    case (Inr u)
    with Cons.prems ex have "executemany srv h t cs rs w1 = (w', r)" by simp
    from Cons.IH [OF this] obtain made where
      "committed w' = committed w1" "closed (sessions w' h) = closed (sessions w1 h)"
      "\<forall>k. k \<noteq> h \<longrightarrow> sessions w' k = sessions w1 k"
      "take (length made) rs = made"
      "calls w' = calls w1 @ map (\<lambda>row. (h, Execute (InsertInto t cs row))) made"
      "r = Inr () \<longrightarrow> made = rs"
      "\<forall>x. r = Inl x \<longrightarrow> made \<noteq> [] \<and> (\<exists>e. x = External e)
                \<and> (\<not> closed (sessions w1 h) \<longrightarrow> aborted (sessions w' h))"
      by blast
    with f1 show ?thesis
      by (auto intro!: exI [of _ "row # made"])
  qed
qed

lemma executemany_Inr:
  "executemany srv h t cs rs w = (w', Inr u) \<Longrightarrow>
   column_set (view srv w' h) t = column_set (view srv w h) t
   \<and> aborted (sessions w' h) = aborted (sessions w h)"
proof (induction rs arbitrary: w)
  case Nil
  then show ?case by simp
next
  case (Cons row rs)
  let ?s = "InsertInto t cs row"
  obtain w1 r1 where ex: "execute srv h ?s w = (w1, r1)"
    by (cases "execute srv h ?s w")
  with Cons.prems obtain u1 where r1: "r1 = Inr u1" and
    rest: "executemany srv h t cs rs w1 = (w', Inr u)"
    by (cases r1) simp_all
  note ok = execute_Inr [OF ex [unfolded r1] ]
  from ok(5) have "column_set (view srv w1 h) t = column_set (view srv w h) t"
    by (rule column_set_insert_into)
  with Cons.IH [OF rest] ok(2,3) show ?case by auto
qed

lemma prefix_split: "take (length made) xs = made \<Longrightarrow> \<exists>rest. xs = made @ rest"
  by (metis append_take_drop_id)

lemma populate_table_run:
  assumes "populate_table srv (Some h) t df w = (w', r)"
  shows "closed (sessions w' h) = closed (sessions w h)"
    and "\<forall>k. k \<noteq> h \<longrightarrow> sessions w' k = sessions w k"
    and "r = Inr () \<Longrightarrow>
           calls w' = calls w @ populate_calls h t df
           \<and> column_set (committed w') t
               = (if aborted (sessions w h) then column_set (committed w) t
                  else column_set (view srv w h) t) \<union> set (columns df)
           \<and> pending (sessions w' h) = [] \<and> \<not> aborted (sessions w' h)
           \<and> \<not> closed (sessions w h)"
    and "r = Inl x \<Longrightarrow>
           (\<exists>e. x = External e) \<and> committed w' = committed w
           \<and> (\<exists>made rest. populate_calls h t df = made @ rest \<and> made \<noteq> []
                  \<and> calls w' = calls w @ made
                  \<and> (rest \<noteq> [] \<and> \<not> closed (sessions w h) \<longrightarrow> aborted (sessions w' h)))"
proof -
  let ?fa = "\<lambda>c. (h, Execute (AddColumnIfNotExists t c))"
  let ?fi = "\<lambda>row. (h, Execute (InsertInto t (columns df) row))"
  let ?emsg = "''Error in populating table: ''"
  have "closed (sessions w' h) = closed (sessions w h)
      \<and> (\<forall>k. k \<noteq> h \<longrightarrow> sessions w' k = sessions w k)
      \<and> (r = Inr () \<longrightarrow>
           calls w' = calls w @ populate_calls h t df
           \<and> column_set (committed w') t
               = (if aborted (sessions w h) then column_set (committed w) t
                  else column_set (view srv w h) t) \<union> set (columns df)
           \<and> pending (sessions w' h) = [] \<and> \<not> aborted (sessions w' h)
           \<and> \<not> closed (sessions w h))
      \<and> (r = Inl x \<longrightarrow>
           (\<exists>e. x = External e) \<and> committed w' = committed w
           \<and> (\<exists>made rest. populate_calls h t df = made @ rest \<and> made \<noteq> []
                  \<and> calls w' = calls w @ made
                  \<and> (rest \<noteq> [] \<and> \<not> closed (sessions w h) \<longrightarrow> aborted (sessions w' h))))"
  proof (cases "closed (sessions w h)")
    case True
    with assms have w': "w' = logger_error ?emsg (External InterfaceError) (called h Cursor w)"
      and r: "r = Inl (External InterfaceError)"
      by (simp_all add: populate_table_def except_log_def and_then_def raised_def cursor_closed)
    have "populate_calls h t df
            = [(h, Cursor)] @ (map ?fa (columns df) @ map ?fi (values_tolist df) @ [(h, Commit)])"
      by (simp add: populate_calls_def)
    moreover have "calls w' = calls w @ [(h, Cursor)]" "[(h, Cursor)] \<noteq> []"
      by (simp_all add: w')
    ultimately have ex: "\<exists>made rest. populate_calls h t df = made @ rest \<and> made \<noteq> []
                  \<and> calls w' = calls w @ made
                  \<and> (rest \<noteq> [] \<and> \<not> closed (sessions w h) \<longrightarrow> aborted (sessions w' h))"
      using True by blast
    have "committed w' = committed w" "closed (sessions w' h) = closed (sessions w h)"
      "\<forall>k. k \<noteq> h \<longrightarrow> sessions w' k = sessions w k"
      by (simp_all add: w')
    with ex r show ?thesis
      by (simp; blast)
  next
    case False
    let ?wc = "called h Cursor w"
    obtain w2 r2 where ac: "add_columns srv h t (columns df) ?wc = (w2, r2)"
      by (cases "add_columns srv h t (columns df) ?wc")
    from add_columns_frame [OF ac] obtain ran2 where
      f2: "committed w2 = committed w" "closed (sessions w2 h) = closed (sessions w h)"
        "\<forall>k. k \<noteq> h \<longrightarrow> sessions w2 k = sessions w k"
        "take (length ran2) (columns df) = ran2"
        "calls w2 = calls w @ [(h, Cursor)] @ map ?fa ran2"
        "r2 = Inr () \<longrightarrow> ran2 = columns df"
        "\<forall>x. r2 = Inl x \<longrightarrow> ran2 \<noteq> [] \<and> (\<exists>e. x = External e)
                \<and> (\<not> closed (sessions w h) \<longrightarrow> aborted (sessions w2 h))"
      by auto
    show ?thesis
    proof (cases r2)
      case (Inl x2)
      with assms False ac have w': "w' = logger_error ?emsg x2 w2" and r: "r = Inl x2"
        by (simp_all add: populate_table_def except_log_def and_then_def raised_def cursor_open)
      from prefix_split [OF f2(4)] obtain rest2 where cs: "columns df = ran2 @ rest2"
        by blast
      have "populate_calls h t df
              = ((h, Cursor) # map ?fa ran2)
                @ (map ?fa rest2 @ map ?fi (values_tolist df) @ [(h, Commit)])"
        by (simp add: populate_calls_def) (metis cs map_append)
      moreover have "(h, Cursor) # map ?fa ran2 \<noteq> []"
        by simp
      moreover have "calls w' = calls w @ ((h, Cursor) # map ?fa ran2)"
        using f2 by (simp add: w')
      moreover have "aborted (sessions w' h)"
        using f2(7) Inl False by (simp add: w')
      ultimately have ex: "\<exists>made rest. populate_calls h t df = made @ rest \<and> made \<noteq> []
                  \<and> calls w' = calls w @ made
                  \<and> (rest \<noteq> [] \<and> \<not> closed (sessions w h) \<longrightarrow> aborted (sessions w' h))"
        by blast
      have "committed w' = committed w" "closed (sessions w' h) = closed (sessions w h)"
        "\<forall>k. k \<noteq> h \<longrightarrow> sessions w' k = sessions w k" "\<exists>e. x2 = External e"
        using f2 Inl by (simp_all add: w')
      with ex r show ?thesis
        by (simp; blast)
    next
      case (Inr u2)
      then have r2: "r2 = Inr ()" by simp
      with f2 have c2: "calls w2 = calls w @ [(h, Cursor)] @ map ?fa (columns df)"
        by simp
      from add_columns_Inr [OF ac [unfolded Inr] ] have
        v2: "column_set (view srv w2 h) t = column_set (view srv w h) t \<union> set (columns df)"
        and a2: "aborted (sessions w2 h) = aborted (sessions w h)"
          "aborted (sessions w h) \<longrightarrow> columns df = []"
        by simp_all
      obtain w3 r3 where em: "executemany srv h t (columns df) (values_tolist df) w2 = (w3, r3)"
        by (cases "executemany srv h t (columns df) (values_tolist df) w2")
      from executemany_frame [OF em] obtain ran3 where
        f3: "committed w3 = committed w2" "closed (sessions w3 h) = closed (sessions w2 h)"
          "\<forall>k. k \<noteq> h \<longrightarrow> sessions w3 k = sessions w2 k"
          "take (length ran3) (values_tolist df) = ran3"
          "calls w3 = calls w2 @ map ?fi ran3"
          "r3 = Inr () \<longrightarrow> ran3 = values_tolist df"
          "\<forall>x. r3 = Inl x \<longrightarrow> ran3 \<noteq> [] \<and> (\<exists>e. x = External e)
                  \<and> (\<not> closed (sessions w2 h) \<longrightarrow> aborted (sessions w3 h))"
        by auto
      show ?thesis
      proof (cases r3)
        case (Inl x3)
        with assms False ac r2 em have w': "w' = logger_error ?emsg x3 w3" and r: "r = Inl x3"
          by (simp_all add: populate_table_def except_log_def and_then_def raised_def cursor_open)
        from prefix_split [OF f3(4)] obtain rest3 where rs: "values_tolist df = ran3 @ rest3"
          by blast
        have "populate_calls h t df
                = ((h, Cursor) # map ?fa (columns df) @ map ?fi ran3)
                  @ (map ?fi rest3 @ [(h, Commit)])"
          by (simp add: populate_calls_def) (metis rs map_append)
        moreover have "(h, Cursor) # map ?fa (columns df) @ map ?fi ran3 \<noteq> []"
          by simp
        moreover have "calls w' = calls w @ ((h, Cursor) # map ?fa (columns df) @ map ?fi ran3)"
          using f2 f3 c2 by (simp add: w')
        moreover have "aborted (sessions w' h)"
          using f3(7) f2(2) Inl False by (simp add: w')
        ultimately have ex: "\<exists>made rest. populate_calls h t df = made @ rest \<and> made \<noteq> []
                  \<and> calls w' = calls w @ made
                  \<and> (rest \<noteq> [] \<and> \<not> closed (sessions w h) \<longrightarrow> aborted (sessions w' h))"
          by blast
        have "committed w' = committed w" "closed (sessions w' h) = closed (sessions w h)"
          "\<forall>k. k \<noteq> h \<longrightarrow> sessions w' k = sessions w k" "\<exists>e. x3 = External e"
          using f2 f3 Inl by (simp_all add: w')
        with ex r show ?thesis
          by (simp; blast)
      next
        case (Inr u3)
        then have r3: "r3 = Inr ()" by simp
        with f3 c2 have c3: "calls w3 = calls w @ [(h, Cursor)]
                               @ map ?fa (columns df) @ map ?fi (values_tolist df)"
          by simp
        from executemany_Inr [OF em [unfolded Inr] ] v2 a2 have
          v3: "column_set (view srv w3 h) t = column_set (view srv w h) t \<union> set (columns df)"
          and a3: "aborted (sessions w3 h) = aborted (sessions w h)"
          by simp_all
        have o3: "\<not> closed (sessions w3 h)"
          using f3(2) f2(2) False by simp
        obtain w4 r4 where co: "commit srv h w3 = (w4, r4)"
          by (cases "commit srv h w3")
        have f4: "calls w4 = calls w @ populate_calls h t df"
          "closed (sessions w4 h) = closed (sessions w h)"
          using commit_calls [of srv h w3] commit_closed_same [of srv h w3 h] co c3 f3(2) f2(2)
          by (simp_all add: populate_calls_def)
        have k4: "\<forall>k. k \<noteq> h \<longrightarrow> sessions w4 k = sessions w k"
          using co f3(3) f2(3) by (auto simp: commit_def split: if_splits option.splits)
        show ?thesis
        proof (cases r4)
          case (Inl e)
          with assms False ac r2 em r3 co have w': "w' = logger_error ?emsg (External e) w4"
            and r: "r = Inl (External e)"
            by (simp_all add: populate_table_def except_log_def and_then_def raised_def
                  cursor_open)
          have "populate_calls h t df = populate_calls h t df @ []"
            "populate_calls h t df \<noteq> []"
            by (simp_all add: populate_calls_def)
          moreover have "calls w' = calls w @ populate_calls h t df"
            using f4 by (simp add: w')
          ultimately have ex: "\<exists>made rest. populate_calls h t df = made @ rest \<and> made \<noteq> []
                  \<and> calls w' = calls w @ made
                  \<and> (rest \<noteq> [] \<and> \<not> closed (sessions w h) \<longrightarrow> aborted (sessions w' h))"
            by blast
          have "committed w' = committed w"
            using commit_Inl [OF co [unfolded Inl] ] f3(1) f2(1) by (simp add: w')
          moreover have "closed (sessions w' h) = closed (sessions w h)"
            "\<forall>k. k \<noteq> h \<longrightarrow> sessions w' k = sessions w k"
            using f4 k4 by (simp_all add: w')
          ultimately show ?thesis using ex r
            by (simp; blast)
        next
          case (Inr u4)
          with assms False ac r2 em r3 co obtain msg where w': "w' = logger_info msg w4"
            and r: "r = Inr ()"
            by (auto simp: populate_table_def except_log_def and_then_def raised_def
                  cursor_open)
          from commit_Inr [OF co [unfolded Inr] ] have
            "committed w4 = (if aborted (sessions w3 h) then committed w3 else view srv w3 h)"
            "pending (sessions w4 h) = []" "\<not> aborted (sessions w4 h)"
            by simp_all
          with v3 a3 a2(2) f3(1) f2(1) have
            "column_set (committed w4) t
               = (if aborted (sessions w h) then column_set (committed w) t
                  else column_set (view srv w h) t) \<union> set (columns df)"
            "pending (sessions w4 h) = []" "\<not> aborted (sessions w4 h)"
            by auto
          with f4 k4 r False show ?thesis
            by (simp add: w')
        qed
      qed
    qed
  qed
  then show "closed (sessions w' h) = closed (sessions w h)"
    and "\<forall>k. k \<noteq> h \<longrightarrow> sessions w' k = sessions w k"
    and "r = Inr () \<Longrightarrow>
           calls w' = calls w @ populate_calls h t df
           \<and> column_set (committed w') t
               = (if aborted (sessions w h) then column_set (committed w) t
                  else column_set (view srv w h) t) \<union> set (columns df)
           \<and> pending (sessions w' h) = [] \<and> \<not> aborted (sessions w' h)
           \<and> \<not> closed (sessions w h)"
    and "r = Inl x \<Longrightarrow>
           (\<exists>e. x = External e) \<and> committed w' = committed w
           \<and> (\<exists>made rest. populate_calls h t df = made @ rest \<and> made \<noteq> []
                  \<and> calls w' = calls w @ made
                  \<and> (rest \<noteq> [] \<and> \<not> closed (sessions w h) \<longrightarrow> aborted (sessions w' h)))"
    by blast+
qed


lemma populate_table_missing:
  assumes "\<not> closed (sessions w h)" "\<not> aborted (sessions w h)" "view srv w h t = None"
    and "columns df = c # cs"
  shows "\<exists>e. snd (populate_table srv (Some h) t df w) = Inl (External e)"
    and "fault srv (calls w @ [(h, Cursor)]) h (Execute (AddColumnIfNotExists t c)) = None \<Longrightarrow>
         snd (populate_table srv (Some h) t df w) = Inl (External (UndefinedTable t))"
proof -
  let ?wc = "called h Cursor w"
  let ?s = "AddColumnIfNotExists t c"
  have en: "exec_stmt srv (view srv ?wc h) ?s = Inl (UndefinedTable t)"
    using assms(3) by simp
  have pt: "snd (populate_table srv (Some h) t df w)
              = (case snd (execute srv h ?s ?wc) of Inl e \<Rightarrow> Inl (External e)
                 | Inr u \<Rightarrow> snd (populate_table srv (Some h) t df w))"
    using assms(1,4)
    by (cases "execute srv h ?s ?wc")
       (auto simp: populate_table_def except_log_def and_then_def raised_def cursor_open
          split: sum.splits)
  have "\<exists>e. snd (execute srv h ?s ?wc) = Inl e"
  proof (cases "fault srv (calls ?wc) h (Execute ?s)")
    case None
    with assms(1,2) en have "snd (execute srv h ?s ?wc) = Inl (UndefinedTable t)"
      by (simp add: execute_refused)
    then show ?thesis by blast
  next
    case (Some e)
    with assms(1,2) have "snd (execute srv h ?s ?wc) = Inl e"
      by (simp add: execute_fault)
    then show ?thesis by blast
  qed
  then obtain e where "snd (execute srv h ?s ?wc) = Inl e" by blast
  with pt show "\<exists>e. snd (populate_table srv (Some h) t df w) = Inl (External e)"
    by simp
  assume "fault srv (calls w @ [(h, Cursor)]) h (Execute ?s) = None"
  with assms(1,2) en have "snd (execute srv h ?s ?wc) = Inl (UndefinedTable t)"
    by (simp add: execute_refused)
  with pt show "snd (populate_table srv (Some h) t df w) = Inl (External (UndefinedTable t))"
    by simp
qed

lemma update_records_refused:
  assumes "\<not> closed (sessions w h)" "\<not> aborted (sessions w h)"
    and "fault srv (calls w @ [(h, Cursor)]) h (Execute (Sql q ps)) = Some err"
    and "fault srv (calls w @ [(h, Cursor), (h, Execute (Sql q ps))]) h Rollback = None"
  shows "snd (update_records srv (Some h) q ps cc w) = Inl (External err)"
proof -
  let ?wc = "called h Cursor w"
  let ?s = "Sql q ps"
  obtain w2 r2 where ex: "execute srv h ?s ?wc = (w2, r2)"
    by (cases "execute srv h ?s ?wc")
  from assms(1,2,3) have "snd (execute srv h ?s ?wc) = Inl err"
    by (simp add: execute_fault)
  with ex have r2: "r2 = Inl err" by simp
  have c2: "calls w2 = calls w @ [(h, Cursor), (h, Execute ?s)]"
    "closed (sessions w2 h) = closed (sessions w h)"
    using execute_calls [of srv h ?s ?wc] execute_closed_same [of srv h ?s ?wc h] ex by simp_all
  have tr: "transaction srv h ?s ''Update query executed successfully.'' w
              = (w2, Inl (External err))"
    using assms(1) ex r2 by (simp add: transaction_def and_then_def raised_def cursor_open)
  from c2 assms(1,4) have "snd (rollback srv h w2) = Inr ()"
    by (simp add: rollback_def)
  then obtain w3 where rb: "rollback srv h w2 = (w3, Inr ())"
    by (cases "rollback srv h w2") simp
  show ?thesis
    unfolding update_records_transaction tr
    by (simp add: finally_close_def except_rollback_def rb)
qed

lemma wrap_Inl:
  "(case p of
      (w', Inl e) \<Rightarrow>
        (logger_error msg (External e) w', Inl (ConnectionError (Wrapped e)))
    | (w', Inr h) \<Rightarrow> (w', Inr h)) = (w'', Inl x)
   \<Longrightarrow> \<exists>e. x = ConnectionError (Wrapped e)"
  by (cases p; cases "snd p") auto

lemma get_connection_Inl:
  assumes "get_connection srv cred w = (w', Inl x)"
  shows "\<exists>e. x = ConnectionError (Wrapped e)"
  using assms unfolding get_connection_def by (rule wrap_Inl)

section \<open>The reflections of a refresh, one table at a time\<close>

lemma reflect_tables_append:
  "reflect_tables reflect sch (ts1 @ ts2) m =
     (case reflect_tables reflect sch ts1 m of
        Inl e \<Rightarrow> Inl e
      | Inr m1 \<Rightarrow> reflect_tables reflect sch ts2 m1)"
  by (induction ts1 arbitrary: m) (auto split: sum.splits)

lemma reflect_tables_chain:
  "length ms = length ts \<Longrightarrow>
   (\<forall>i < length ts. reflect sch (ts ! i) ((m # ms) ! i) = Inr (ms ! i)) \<Longrightarrow>
   reflect_tables reflect sch ts m = Inr (last (m # ms))"
proof (induction ts arbitrary: m ms)
  case Nil
  then show ?case by simp
next
  case (Cons t ts)
  then obtain m1 ms1 where ms: "ms = m1 # ms1"
    by (cases ms) simp_all
  from Cons.prems(2) [rule_format, of 0] ms have first: "reflect sch t m = Inr m1"
    by simp
  have "\<forall>i < length ts. reflect sch (ts ! i) ((m1 # ms1) ! i) = Inr (ms1 ! i)"
  proof (intro allI impI)
    fix i assume "i < length ts"
    with Cons.prems(2) [rule_format, of "Suc i"] ms
    show "reflect sch (ts ! i) ((m1 # ms1) ! i) = Inr (ms1 ! i)"
      by simp
  qed
  with Cons.IH [of ms1 m1] Cons.prems(1) ms have
    "reflect_tables reflect sch ts m1 = Inr (last (m1 # ms1))"
    by simp
  with first ms show ?case by simp
qed

lemma reflect_tables_Inr:
  "reflect_tables reflect sch ts m = Inr m' \<Longrightarrow>
   \<exists>ms. length ms = length ts
      \<and> (\<forall>i < length ts. reflect sch (ts ! i) ((m # ms) ! i) = Inr (ms ! i))
      \<and> m' = last (m # ms)"
proof (induction ts arbitrary: m)
  case Nil
  then show ?case by simp
next
  case (Cons t ts)
  then obtain m1 where first: "reflect sch t m = Inr m1"
    and rest: "reflect_tables reflect sch ts m1 = Inr m'"
    by (cases "reflect sch t m") simp_all
  from Cons.IH [OF rest] obtain ms1 where
    l: "length ms1 = length ts" and
    c: "\<forall>i < length ts. reflect sch (ts ! i) ((m1 # ms1) ! i) = Inr (ms1 ! i)" and
    e: "m' = last (m1 # ms1)"
    by blast
  have "\<forall>i < length (t # ts).
          reflect sch ((t # ts) ! i) ((m # m1 # ms1) ! i) = Inr ((m1 # ms1) ! i)"
  proof (intro allI impI)
    fix i assume "i < length (t # ts)"
    then show "reflect sch ((t # ts) ! i) ((m # m1 # ms1) ! i) = Inr ((m1 # ms1) ! i)"
      using first c by (cases i) simp_all
  qed
  with l e show ?case
    by (intro exI [of _ "m1 # ms1"]) simp
qed

lemmas run_simps =
  populate_table_def except_log_def and_then_def raised_def cursor_def execute_def commit_def
  rollback_def close_def called_def logger_info_def logger_error_def view_def open_world_def
  plain_server_def refusing_server_def strict_server_def commit_refusing_server_def
  empty_table_def column_set_def finally_close_def except_rollback_def update_records_def
  create_view_def create_table_def with_session_def idle_def apply_stmt_def fresh_world_def
  get_connection_def connect_def schema_credentials_def

section \<open>Column convergence\<close>

text \<open>
  C1. Two data frames are populated into the same table one after the other, through the
  same connection or through two, and both calls succeed. When neither connection has
  an uncommitted statement other than the setting of its search path (which is how
  \<open>create_connection\<close> hands a connection over), the committed table has, after the
  first call, the columns that were committed before together with the first frame's,
  and after the second call those together with the second frame's. So the final column
  set is the union of the three: every column of either frame exists, and no column
  that was there is removed.
\<close>

theorem populate_table_column_union:
  assumes "populate_table srv (Some h1) t d1 w = (w1, Inr ())"
    and "populate_table srv (Some h2) t d2 w1 = (w2, Inr ())"
    and "set (pending (sessions w h1)) \<subseteq> range SetSearchPath"
    and "set (pending (sessions w h2)) \<subseteq> range SetSearchPath"
  shows "column_set (committed w1) t = column_set (committed w) t \<union> set (columns d1)
       \<and> column_set (committed w2) t
           = column_set (committed w) t \<union> set (columns d1) \<union> set (columns d2)"
proof -
  note first = populate_table_run [OF assms(1)]
  from assms(3) have "view srv w h1 = committed w"
    by (rule view_committed)
  with first(3) have c1: "column_set (committed w1) t = column_set (committed w) t \<union> set (columns d1)"
    and p1: "pending (sessions w1 h1) = []"
    by simp_all
  have "set (pending (sessions w1 h2)) \<subseteq> range SetSearchPath"
  proof (cases "h2 = h1")
    case True
    with p1 show ?thesis by simp
  next
    case False
    with first(2) assms(4) show ?thesis by simp
  qed
  then have "view srv w1 h2 = committed w1"
    by (rule view_committed)
  with populate_table_run(3) [OF assms(2)] have
    "column_set (committed w2) t = column_set (committed w1) t \<union> set (columns d2)"
    by simp
  with c1 show ?thesis by simp
qed

lemma two_connections_state:
  "committed two_connections ''t1'' = Some empty_table"
  "pending (sessions two_connections 0) = [SetSearchPath ''ai'']"
  "pending (sessions two_connections (Suc 0)) = [SetSearchPath ''ai'']"
  by (simp_all add: two_connections_def run_simps)

lemma first_run:
  "snd (populate_table plain_server (Some 0) ''t1'' first_frame two_connections) = Inr ()"
  by (simp add: two_connections_def run_simps first_frame_def)

lemma second_run:
  "snd (populate_table plain_server (Some (Suc 0)) ''t1'' second_frame
          (fst (populate_table plain_server (Some 0) ''t1'' first_frame two_connections)))
     = Inr ()"
  by (simp add: two_connections_def run_simps first_frame_def second_frame_def)

theorem populate_table_column_union_witness:
  "column_set
     (committed
        (fst (populate_table plain_server (Some (Suc 0)) ''t1'' second_frame
                (fst (populate_table plain_server (Some 0) ''t1'' first_frame
                        two_connections)))))
     ''t1'' = {''a'', ''b'', ''c''}"
proof -
  let ?r1 = "populate_table plain_server (Some 0) ''t1'' first_frame two_connections"
  let ?r2 = "populate_table plain_server (Some (Suc 0)) ''t1'' second_frame (fst ?r1)"
  have s1: "?r1 = (fst ?r1, Inr ())"
    using first_run by (simp add: prod_eq_iff)
  have s2: "?r2 = (fst ?r2, Inr ())"
    using second_run by (simp add: prod_eq_iff)
  have h1: "set (pending (sessions two_connections 0)) \<subseteq> range SetSearchPath"
    and h2: "set (pending (sessions two_connections (Suc 0))) \<subseteq> range SetSearchPath"
    by (simp_all add: two_connections_state)
  have "column_set (committed two_connections) ''t1'' = {}"
    by (simp add: two_connections_state column_set_def empty_table_def)
  with populate_table_column_union [OF s1 s2 h1 h2] show ?thesis
    by (auto simp: first_frame_def second_frame_def)
qed

section \<open>The exceptions that reach the caller\<close>

text \<open>
  C2, as the claim states it, fails: the module has no \<open>QueryError\<close> and no
  \<open>TableNotFoundError\<close>, and its handlers end in a bare \<open>raise\<close>. Populating a table that
  was never created raises the driver's own \<open>UndefinedTable\<close>, and a refused update raises
  the driver's own error, neither wrapped in a class of the module.
\<close>

theorem populate_table_nonexistent_raises_driver_error:
  "snd (populate_table plain_server (Some 0) ''test_table_nonexistent'' first_frame
          (open_world Map.empty))
     = Inl (External (UndefinedTable ''test_table_nonexistent''))
   \<and> snd (update_records refusing_server (Some 0) ''UPDATE t SET a = 1'' None True
            (open_world Map.empty))
     = Inl (External (OperationalError ''refused''))"
  by (simp add: run_simps first_frame_def)

text \<open>
  C2, amended. Every exception that leaves \<open>query_database\<close>, \<open>update_records\<close>,
  \<open>create_view\<close>, \<open>create_table\<close> or \<open>populate_table\<close> called on a connection object is an
  exception of the external library, re-raised as it is. When the server refuses the
  statement of \<open>update_records\<close> on an open connection whose transaction has not failed,
  and the rollback that follows is not refused, the caller gets that very error.
  \<open>populate_table\<close> with at least one column, on an open connection whose transaction has
  not failed and that sees no such table, fails with an exception of the library, which
  is the driver's \<open>UndefinedTable\<close> unless the server refuses the first \<open>ALTER TABLE\<close>
  for a reason of its own. \<open>ConnectionError\<close>, the only exception class of the module, is
  what \<open>query_database\<close>, \<open>update_records\<close> and \<open>create_view\<close> raise when they are
  called without a connection and what \<open>_get_connection\<close> raises, around the driver's
  error, whenever it fails; \<open>create_table\<close> and \<open>populate_table\<close> called without a
  connection raise Python's \<open>AttributeError\<close>.
\<close>

theorem failures_reraise_library_exception:
  "(query_database read_sql (Some h) q ps cc w = (w', Inl x) \<longrightarrow> (\<exists>e. x = External e))
   \<and> (update_records srv (Some h) q ps cc w = (w', Inl x) \<longrightarrow> (\<exists>e. x = External e))
   \<and> (create_view srv (Some h) v vq cc w = (w', Inl x) \<longrightarrow> (\<exists>e. x = External e))
   \<and> (create_table srv (Some h) t w = (w', Inl x) \<longrightarrow> (\<exists>e. x = External e))
   \<and> (populate_table srv (Some h) t df w = (w', Inl x) \<longrightarrow> (\<exists>e. x = External e))
   \<and> (\<not> closed (sessions w h) \<and> \<not> aborted (sessions w h)
        \<and> fault srv (calls w @ [(h, Cursor)]) h (Execute (Sql q ps)) = Some err
        \<and> fault srv (calls w @ [(h, Cursor), (h, Execute (Sql q ps))]) h Rollback = None \<longrightarrow>
        snd (update_records srv (Some h) q ps cc w) = Inl (External err))
   \<and> (\<not> closed (sessions w h) \<and> \<not> aborted (sessions w h) \<and> view srv w h t = None
        \<and> columns df = c # cs \<longrightarrow>
        (\<exists>e. snd (populate_table srv (Some h) t df w) = Inl (External e))
        \<and> (fault srv (calls w @ [(h, Cursor)]) h (Execute (AddColumnIfNotExists t c)) = None \<longrightarrow>
             snd (populate_table srv (Some h) t df w) = Inl (External (UndefinedTable t))))
   \<and> snd (query_database read_sql None q ps cc w)
        = Inl (ConnectionError (Message ''No connection to database.''))
   \<and> snd (update_records srv None q ps cc w)
        = Inl (ConnectionError (Message ''No connection to database.''))
   \<and> snd (create_view srv None v vq cc w)
        = Inl (ConnectionError (Message ''No connection to database.''))
   \<and> (get_connection srv cred w = (w', Inl x) \<longrightarrow> (\<exists>e. x = ConnectionError (Wrapped e)))
   \<and> snd (create_table srv None t w) = Inl AttributeError
   \<and> snd (populate_table srv None t df w) = Inl AttributeError"
proof (intro conjI impI)
  assume "query_database read_sql (Some h) q ps cc w = (w', Inl x)"
  then show "\<exists>e. x = External e" by (rule query_database_External)
next
  assume "update_records srv (Some h) q ps cc w = (w', Inl x)"
  then show "\<exists>e. x = External e"
    unfolding update_records_transaction by (rule transaction_External)
next
  assume "create_view srv (Some h) v vq cc w = (w', Inl x)"
  then show "\<exists>e. x = External e"
    unfolding create_view_transaction by (rule transaction_External)
next
  assume "create_table srv (Some h) t w = (w', Inl x)"
  then show "\<exists>e. x = External e" by (rule create_table_External)
next
  assume "populate_table srv (Some h) t df w = (w', Inl x)"
  from populate_table_run(4) [OF this] show "\<exists>e. x = External e" by blast
next
  assume "\<not> closed (sessions w h) \<and> \<not> aborted (sessions w h)
        \<and> fault srv (calls w @ [(h, Cursor)]) h (Execute (Sql q ps)) = Some err
        \<and> fault srv (calls w @ [(h, Cursor), (h, Execute (Sql q ps))]) h Rollback = None"
  then show "snd (update_records srv (Some h) q ps cc w) = Inl (External err)"
    using update_records_refused by blast
next
  assume a: "\<not> closed (sessions w h) \<and> \<not> aborted (sessions w h) \<and> view srv w h t = None
        \<and> columns df = c # cs"
  then show "\<exists>e. snd (populate_table srv (Some h) t df w) = Inl (External e)"
    using populate_table_missing(1) by blast
  assume "fault srv (calls w @ [(h, Cursor)]) h (Execute (AddColumnIfNotExists t c)) = None"
  with a show "snd (populate_table srv (Some h) t df w) = Inl (External (UndefinedTable t))"
    using populate_table_missing(2) by blast
next
  show "snd (query_database read_sql None q ps cc w)
        = Inl (ConnectionError (Message ''No connection to database.''))"
    by (simp add: query_database_def)
next
  show "snd (update_records srv None q ps cc w)
        = Inl (ConnectionError (Message ''No connection to database.''))"
    by (simp add: update_records_def)
next
  show "snd (create_view srv None v vq cc w)
        = Inl (ConnectionError (Message ''No connection to database.''))"
    by (simp add: create_view_def)
next
  assume "get_connection srv cred w = (w', Inl x)"
  then show "\<exists>e. x = ConnectionError (Wrapped e)" by (rule get_connection_Inl)
next
  show "snd (create_table srv None t w) = Inl AttributeError"
    by (simp add: create_table_def except_log_def)
next
  show "snd (populate_table srv None t df w) = Inl AttributeError"
    by (simp add: populate_table_def except_log_def)
qed

theorem failures_reraise_library_exception_witness:
  "snd (populate_table plain_server (Some 0) ''missing'' second_frame (open_world Map.empty))
     = Inl (External (UndefinedTable ''missing''))
   \<and> snd (update_records refusing_server (Some 0) ''DELETE FROM t'' None False
            (open_world Map.empty))
     = Inl (External (OperationalError ''refused''))"
proof -
  have o: "\<not> closed (sessions (open_world Map.empty) 0)"
    "\<not> aborted (sessions (open_world Map.empty) 0)"
    "view plain_server (open_world Map.empty) 0 ''missing'' = None"
    by (simp_all add: open_world_def view_def)
  have c: "columns second_frame = ''b'' # [''c'']"
    by (simp add: second_frame_def)
  have f: "fault plain_server (calls (open_world Map.empty) @ [(0, Cursor)]) 0
             (Execute (AddColumnIfNotExists ''missing'' ''b'')) = None"
    by (simp add: plain_server_def)
  have r: "fault refusing_server (calls (open_world Map.empty) @ [(0, Cursor)]) 0
             (Execute (Sql ''DELETE FROM t'' None)) = Some (OperationalError ''refused'')"
    "fault refusing_server
       (calls (open_world Map.empty) @ [(0, Cursor), (0, Execute (Sql ''DELETE FROM t'' None))])
       0 Rollback = None"
    by (simp_all add: refusing_server_def)
  from failures_reraise_library_exception
         [where h = 0 and w = "open_world Map.empty" and t = "''missing''"
            and df = second_frame and c = "''b''" and cs = "[''c'']" and srv = plain_server]
       o c f
  have "snd (populate_table plain_server (Some 0) ''missing'' second_frame (open_world Map.empty))
     = Inl (External (UndefinedTable ''missing''))"
    by simp
  moreover
  from failures_reraise_library_exception
         [where h = 0 and w = "open_world Map.empty" and srv = refusing_server
            and q = "''DELETE FROM t''" and ps = None and cc = False
            and err = "OperationalError ''refused''"]
       o r
  have "snd (update_records refusing_server (Some 0) ''DELETE FROM t'' None False
            (open_world Map.empty))
     = Inl (External (OperationalError ''refused''))"
    by simp
  ultimately show ?thesis by blast
qed

section \<open>One commit for a whole populate_table\<close>




section \<open>The metadata cache\<close>

text \<open>
  C4. \<open>refresh_metadata_cache\<close> reflects the configured tables in order, each into the
  metadata the earlier ones have built. When the reflection of some table fails after
  those before it succeeded, the refresh returns the object as it was, cache included,
  and adds one error record with that failure to the log; it raises nothing. When every
  reflection succeeds, the cache becomes the whole metadata they built. And the object
  changes only in that case: the cache is replaced by nothing but the result of a fully
  successful reflection.
\<close>

theorem refresh_failure_keeps_cache:
  "(\<forall>ts1 t ts2 ms e.
      cache_tables self = ts1 @ t # ts2 \<and> length ms = length ts1
      \<and> (\<forall>i < length ts1. reflect (cache_schema self) (ts1 ! i) (([] # ms) ! i) = Inr (ms ! i))
      \<and> reflect (cache_schema self) t (last ([] # ms)) = Inl e \<longrightarrow>
      refresh_metadata_cache reflect self lg
        = (self, lg @ [Error ''Error refreshing metadata cache: '' (External e)]))
   \<and> (\<forall>ms.
      length ms = length (cache_tables self)
      \<and> (\<forall>i < length (cache_tables self).
            reflect (cache_schema self) (cache_tables self ! i) (([] # ms) ! i) = Inr (ms ! i)) \<longrightarrow>
      refresh_metadata_cache reflect self lg
        = (self\<lparr>metadata_cache := Some (last ([] # ms))\<rparr>,
           lg @ [Info ''Metadata cache refreshed.'']))
   \<and> (fst (refresh_metadata_cache reflect self lg) \<noteq> self \<longrightarrow>
      (\<exists>ms. length ms = length (cache_tables self)
          \<and> (\<forall>i < length (cache_tables self).
                reflect (cache_schema self) (cache_tables self ! i) (([] # ms) ! i)
                  = Inr (ms ! i))
          \<and> fst (refresh_metadata_cache reflect self lg)
              = self\<lparr>metadata_cache := Some (last ([] # ms))\<rparr>))"
proof (intro conjI allI impI)
  fix ts1 t ts2 ms e
  assume a: "cache_tables self = ts1 @ t # ts2 \<and> length ms = length ts1
      \<and> (\<forall>i < length ts1. reflect (cache_schema self) (ts1 ! i) (([] # ms) ! i) = Inr (ms ! i))
      \<and> reflect (cache_schema self) t (last ([] # ms)) = Inl e"
  then have "reflect_tables reflect (cache_schema self) ts1 [] = Inr (last ([] # ms))"
    using reflect_tables_chain by blast
  with a have "reflect_tables reflect (cache_schema self) (cache_tables self) [] = Inl e"
    by (simp add: reflect_tables_append)
  then show "refresh_metadata_cache reflect self lg
        = (self, lg @ [Error ''Error refreshing metadata cache: '' (External e)])"
    by (simp add: refresh_metadata_cache_def)
next
  fix ms
  assume "length ms = length (cache_tables self)
      \<and> (\<forall>i < length (cache_tables self).
            reflect (cache_schema self) (cache_tables self ! i) (([] # ms) ! i) = Inr (ms ! i))"
  then have "reflect_tables reflect (cache_schema self) (cache_tables self) []
               = Inr (last ([] # ms))"
    using reflect_tables_chain by blast
  then show "refresh_metadata_cache reflect self lg
        = (self\<lparr>metadata_cache := Some (last ([] # ms))\<rparr>,
           lg @ [Info ''Metadata cache refreshed.''])"
    by (simp add: refresh_metadata_cache_def)
next
  assume changed: "fst (refresh_metadata_cache reflect self lg) \<noteq> self"
  show "\<exists>ms. length ms = length (cache_tables self)
          \<and> (\<forall>i < length (cache_tables self).
                reflect (cache_schema self) (cache_tables self ! i) (([] # ms) ! i)
                  = Inr (ms ! i))
          \<and> fst (refresh_metadata_cache reflect self lg)
              = self\<lparr>metadata_cache := Some (last ([] # ms))\<rparr>"
  proof (cases "reflect_tables reflect (cache_schema self) (cache_tables self) []")
    case (Inl e)
    with changed show ?thesis
      by (simp add: refresh_metadata_cache_def)
  next
    case (Inr m)
    from reflect_tables_Inr [OF Inr] obtain ms where
      "length ms = length (cache_tables self)"
      "\<forall>i < length (cache_tables self).
         reflect (cache_schema self) (cache_tables self ! i) (([] # ms) ! i) = Inr (ms ! i)"
      "m = last ([] # ms)"
      by blast
    with Inr show ?thesis
      by (intro exI [of _ ms]) (simp add: refresh_metadata_cache_def)
  qed
qed

theorem refresh_failure_keeps_cache_witness:
  "partial_reflect ''public'' ''users'' []
     = Inr [(''users'', \<lparr> table_name = ''users'', table_columns = [] \<rparr>)]
   \<and> partial_reflect ''public'' ''orders''
       [(''users'', \<lparr> table_name = ''users'', table_columns = [] \<rparr>)]
     = Inl (OperationalError ''no such table'')
   \<and> refresh_metadata_cache partial_reflect stale_cache []
     = (stale_cache,
        [Error ''Error refreshing metadata cache: ''
           (External (OperationalError ''no such table''))])"
proof -
  let ?m1 = "[(''users'', \<lparr> table_name = ''users'', table_columns = [] \<rparr>)]"
  have u: "partial_reflect ''public'' ''users'' [] = Inr ?m1"
    and o: "partial_reflect ''public'' ''orders'' ?m1 = Inl (OperationalError ''no such table'')"
    by (simp_all add: partial_reflect_def)
  have h: "cache_tables stale_cache = [''users''] @ ''orders'' # []
      \<and> length [?m1] = length [''users'']
      \<and> (\<forall>i < length [''users''].
            partial_reflect (cache_schema stale_cache) ([''users''] ! i) (([] # [?m1]) ! i)
              = Inr ([?m1] ! i))
      \<and> partial_reflect (cache_schema stale_cache) ''orders'' (last ([] # [?m1]))
          = Inl (OperationalError ''no such table'')"
    using u o by (simp add: stale_cache_def)
  note failure = conjunct1 [OF refresh_failure_keeps_cache [of stale_cache partial_reflect "[]"] ]
  from failure [rule_format, OF h]
  have "refresh_metadata_cache partial_reflect stale_cache []
     = (stale_cache,
        [Error ''Error refreshing metadata cache: ''
           (External (OperationalError ''no such table''))])"
    by simp
  with u o show ?thesis by simp
qed

section \<open>Opening a connection\<close>

text \<open>
  C5. The claim: when the session is established and setting the search path then fails,
  the session is closed before \<open>ConnectionError\<close> is raised. In the code the handler of
  \<open>_get_connection\<close> logs and raises and never calls \<open>close\<close>: with a server that accepts
  the connection and refuses the statement, the call raises \<open>ConnectionError\<close> around
  the driver's error and leaves session \<open>0\<close> open, having made three driver calls, none
  of them a close.
\<close>

theorem get_connection_leaves_session_open:
  "snd (get_connection refusing_server schema_credentials (fresh_world Map.empty))
     = Inl (ConnectionError (Wrapped (OperationalError ''refused'')))
   \<and> closed (sessions (fst (get_connection refusing_server schema_credentials
                               (fresh_world Map.empty))) 0) = False
   \<and> calls (fst (get_connection refusing_server schema_credentials (fresh_world Map.empty)))
     = [(0, Connect), (0, Cursor), (0, Execute (SetSearchPath ''ai''))]"
  by (simp add: get_connection_def connect_def cursor_def execute_def refusing_server_def
        schema_credentials_def fresh_world_def called_def logger_error_def with_session_def
        idle_def)

section \<open>Properties of the credentials\<close>

text \<open>
  C6. The claim: construction applies no defaulting beyond the port and the schema, and
  when \<open>DB_TABLES\<close> is absent the resulting set of table names is empty. The code
  defaults \<open>DB_TABLES\<close> to the empty string and splits it at commas, and Python's
  \<open>''.split(',')\<close> is the one-element list \<open>['']\<close>: with an environment that sets
  nothing, the table list holds one table name, the empty string, and is not empty.
\<close>

theorem PostgresCredentials_absent_tables:
  "PostgresCredentials py_int Map.empty =
     Inr \<lparr> host = None, database = None, user = None, password = None,
           port = 5432, schema = '''', tables = [''''] \<rparr>"
  by (simp add: PostgresCredentials_def getenv_def)

section \<open>Properties of the rendering\<close>

lemma map_of_sql_type_mapping_None:
  "t \<notin> {''INTEGER'', ''BIGINT'', ''TEXT'', ''BOOLEAN'', ''DATE'', ''FLOAT'', ''DOUBLE'', ''SERIAL''}
   \<Longrightarrow> map_of sql_type_mapping t = None"
  by (simp add: sql_type_mapping_def)

text \<open>
  C7. Rendering a column is total and follows the fixed mapping: the rendering of every
  column is its name, a space, an SQL type and, exactly when the column is a primary
  key, the suffix \<open>PRIMARY KEY\<close>. The SQL type is \<open>INT\<close> for the type name \<open>INTEGER\<close>,
  \<open>BIGINT\<close> for \<open>BIGINT\<close>, \<open>VARCHAR(255)\<close> for \<open>TEXT\<close>, \<open>BOOLEAN\<close> for \<open>BOOLEAN\<close>, \<open>DATE\<close>
  for \<open>DATE\<close>, \<open>FLOAT\<close> for \<open>FLOAT\<close>, \<open>DOUBLE PRECISION\<close> for \<open>DOUBLE\<close>, \<open>SERIAL\<close> for
  \<open>SERIAL\<close>, and \<open>VARCHAR(255)\<close> for every type name outside these eight.
\<close>

theorem format_column_details_mapping:
  "\<exists>ty. format_column_details col
           = name col @ '' '' @ ty @ (if primary_key col then '' PRIMARY KEY'' else '''')
      \<and> (type_name col = ''INTEGER'' \<longrightarrow> ty = ''INT'')
      \<and> (type_name col = ''BIGINT'' \<longrightarrow> ty = ''BIGINT'')
      \<and> (type_name col = ''TEXT'' \<longrightarrow> ty = ''VARCHAR(255)'')
      \<and> (type_name col = ''BOOLEAN'' \<longrightarrow> ty = ''BOOLEAN'')
      \<and> (type_name col = ''DATE'' \<longrightarrow> ty = ''DATE'')
      \<and> (type_name col = ''FLOAT'' \<longrightarrow> ty = ''FLOAT'')
      \<and> (type_name col = ''DOUBLE'' \<longrightarrow> ty = ''DOUBLE PRECISION'')
      \<and> (type_name col = ''SERIAL'' \<longrightarrow> ty = ''SERIAL'')
      \<and> (type_name col \<notin> {''INTEGER'', ''BIGINT'', ''TEXT'', ''BOOLEAN'', ''DATE'', ''FLOAT'',
                             ''DOUBLE'', ''SERIAL''} \<longrightarrow> ty = ''VARCHAR(255)'')"
proof -
  let ?ty = "case map_of sql_type_mapping (type_name col) of
               None \<Rightarrow> ''VARCHAR(255)'' | Some s \<Rightarrow> s"
  have shape: "format_column_details col
           = name col @ '' '' @ ?ty @ (if primary_key col then '' PRIMARY KEY'' else '''')"
    by (simp add: format_column_details_def Let_def)
  have known:
    "type_name col = ''INTEGER'' \<longrightarrow> ?ty = ''INT''"
    "type_name col = ''BIGINT'' \<longrightarrow> ?ty = ''BIGINT''"
    "type_name col = ''TEXT'' \<longrightarrow> ?ty = ''VARCHAR(255)''"
    "type_name col = ''BOOLEAN'' \<longrightarrow> ?ty = ''BOOLEAN''"
    "type_name col = ''DATE'' \<longrightarrow> ?ty = ''DATE''"
    "type_name col = ''FLOAT'' \<longrightarrow> ?ty = ''FLOAT''"
    "type_name col = ''DOUBLE'' \<longrightarrow> ?ty = ''DOUBLE PRECISION''"
    "type_name col = ''SERIAL'' \<longrightarrow> ?ty = ''SERIAL''"
    by (simp_all add: sql_type_mapping_def)
  have other:
    "type_name col \<notin> {''INTEGER'', ''BIGINT'', ''TEXT'', ''BOOLEAN'', ''DATE'', ''FLOAT'',
                        ''DOUBLE'', ''SERIAL''} \<longrightarrow> ?ty = ''VARCHAR(255)''"
    using map_of_sql_type_mapping_None [of "type_name col"] by simp
  from shape known other show ?thesis
    by (intro exI [of _ ?ty] conjI)
qed

theorem format_column_details_mapping_witness:
  "format_column_details \<lparr> name = ''id'', type_name = ''INTEGER'', primary_key = True \<rparr>
     = ''id INT PRIMARY KEY''
   \<and> format_column_details \<lparr> name = ''n'', type_name = ''BIGINT'', primary_key = True \<rparr>
     = ''n BIGINT PRIMARY KEY''
   \<and> format_column_details \<lparr> name = ''x'', type_name = ''DOUBLE'', primary_key = False \<rparr>
     = ''x DOUBLE PRECISION''
   \<and> format_column_details \<lparr> name = ''payload'', type_name = ''JSONB'', primary_key = False \<rparr>
     = ''payload VARCHAR(255)''"
proof -
  from format_column_details_mapping
         [of "\<lparr> name = ''id'', type_name = ''INTEGER'', primary_key = True \<rparr>"]
  have a: "format_column_details \<lparr> name = ''id'', type_name = ''INTEGER'', primary_key = True \<rparr>
     = ''id INT PRIMARY KEY''"
    by auto
  from format_column_details_mapping
         [of "\<lparr> name = ''n'', type_name = ''BIGINT'', primary_key = True \<rparr>"]
  have b: "format_column_details \<lparr> name = ''n'', type_name = ''BIGINT'', primary_key = True \<rparr>
     = ''n BIGINT PRIMARY KEY''"
    by auto
  from format_column_details_mapping
         [of "\<lparr> name = ''x'', type_name = ''DOUBLE'', primary_key = False \<rparr>"]
  have c: "format_column_details \<lparr> name = ''x'', type_name = ''DOUBLE'', primary_key = False \<rparr>
     = ''x DOUBLE PRECISION''"
    by auto
  from format_column_details_mapping
         [of "\<lparr> name = ''payload'', type_name = ''JSONB'', primary_key = False \<rparr>"]
  have d: "format_column_details
             \<lparr> name = ''payload'', type_name = ''JSONB'', primary_key = False \<rparr>
     = ''payload VARCHAR(255)''"
    by auto
  from a b c d show ?thesis by blast
qed

section \<open>Commit, rollback and close\<close>

text \<open>
  C8. For \<open>update_records\<close> and for \<open>create_view\<close> on a connection object, with \<open>s\<close> the
  statement sent. When the call succeeds, the calls it made on the connection are the
  cursor, the statement and the commit, the committed database is what the statement
  made of the session's view, and no transaction is left open. When it fails, whether at
  the cursor, at the statement or at the commit, the calls are those up to the one that
  failed, then the rollback, the committed database is unchanged, and the caller gets an
  exception of the library; no transaction is left open when the connection is closed
  by the call, or was open and the rollback is not refused. In both cases a close call
  follows exactly when \<open>close_connection\<close> is true, and the connection is closed
  afterwards exactly when it was closed before or the flag is true.
\<close>

theorem commit_rollback_close_discipline:
  assumes "(s = Sql q ps \<and> update_records srv (Some h) q ps cc w = (w', r))
         \<or> (s = CreateOrReplaceView v vq \<and> create_view srv (Some h) v vq cc w = (w', r))"
  shows "(r = Inr () \<longrightarrow>
            calls w' = calls w @ [(h, Cursor), (h, Execute s), (h, Commit)]
                         @ (if cc then [(h, Close)] else [])
          \<and> exec_stmt srv (view srv w h) s = Inr (committed w')
          \<and> pending (sessions w' h) = [] \<and> \<not> aborted (sessions w' h))
       \<and> (\<forall>x. r = Inl x \<longrightarrow>
            committed w' = committed w
          \<and> (\<exists>e. x = External e)
          \<and> (\<exists>tried rest.
                [(h, Cursor), (h, Execute s), (h, Commit)] = tried @ rest \<and> tried \<noteq> []
              \<and> calls w' = calls w @ tried @ [(h, Rollback)] @ (if cc then [(h, Close)] else [])
              \<and> (cc \<or> (\<not> closed (sessions w h)
                         \<and> fault srv (calls w @ tried) h Rollback = None) \<longrightarrow>
                   pending (sessions w' h) = [] \<and> \<not> aborted (sessions w' h))))
       \<and> closed (sessions w' h) = (closed (sessions w h) \<or> cc)"
proof -
  from assms obtain emsg msg where
    "finally_close h cc (except_rollback srv h emsg (transaction srv h s msg w)) = (w', r)"
    unfolding update_records_transaction create_view_transaction by blast
  then show ?thesis
    by (rule transaction_discipline)
qed

theorem commit_rollback_close_discipline_witness:
  "calls (fst (update_records refusing_server (Some 0) ''UPDATE t SET a = %s'' (Some [Text ''x''])
                 True (open_world Map.empty)))
     = [(0, Connect), (0, Cursor),
        (0, Execute (Sql ''UPDATE t SET a = %s'' (Some [Text ''x'']))), (0, Rollback), (0, Close)]
   \<and> closed (sessions (fst (update_records refusing_server (Some 0) ''UPDATE t SET a = %s''
                              (Some [Text ''x'']) True (open_world Map.empty))) 0)
   \<and> calls (fst (update_records commit_refusing_server (Some 0) ''UPDATE t SET a = %s''
                   (Some [Text ''x'']) False (open_world Map.empty)))
     = [(0, Connect), (0, Cursor),
        (0, Execute (Sql ''UPDATE t SET a = %s'' (Some [Text ''x'']))), (0, Commit),
        (0, Rollback)]
   \<and> \<not> closed (sessions (fst (update_records commit_refusing_server (Some 0)
                                ''UPDATE t SET a = %s'' (Some [Text ''x'']) False
                                (open_world Map.empty))) 0)
   \<and> calls (fst (create_view plain_server (Some 0) ''v'' ''SELECT 1'' False
                   (open_world Map.empty)))
     = [(0, Connect), (0, Cursor), (0, Execute (CreateOrReplaceView ''v'' ''SELECT 1'')),
        (0, Commit)]
   \<and> \<not> closed (sessions (fst (create_view plain_server (Some 0) ''v'' ''SELECT 1'' False
                                (open_world Map.empty))) 0)"
proof -
  let ?s = "Sql ''UPDATE t SET a = %s'' (Some [Text ''x''])"
  let ?u = "update_records refusing_server (Some 0) ''UPDATE t SET a = %s'' (Some [Text ''x''])
              True (open_world Map.empty)"
  let ?k = "update_records commit_refusing_server (Some 0) ''UPDATE t SET a = %s''
              (Some [Text ''x'']) False (open_world Map.empty)"
  let ?c = "create_view plain_server (Some 0) ''v'' ''SELECT 1'' False (open_world Map.empty)"
  have u: "snd ?u = Inl (External (OperationalError ''refused''))" "length (calls (fst ?u)) = 5"
    by (simp_all add: run_simps)
  have k: "snd ?k = Inl (External (OperationalError ''commit refused''))"
    "length (calls (fst ?k)) = 5"
    by (simp_all add: run_simps)
  have c: "snd ?c = Inr ()"
    by (simp add: run_simps)
  have o: "\<not> closed (sessions (open_world Map.empty) 0)"
    "calls (open_world Map.empty) = [(0, Connect)]"
    by (simp_all add: open_world_def)
  have pu: "?s = ?s \<and> ?u = (fst ?u, snd ?u)"
    and pk: "?s = ?s \<and> ?k = (fst ?k, snd ?k)"
    by simp_all
  have pc: "CreateOrReplaceView ''v'' ''SELECT 1'' = CreateOrReplaceView ''v'' ''SELECT 1''
            \<and> ?c = (fst ?c, snd ?c)"
    by simp
  from commit_rollback_close_discipline [OF disjI1 [OF pu] ] u(1) o obtain tried rest where
    t: "[(0, Cursor), (0, Execute ?s), (0, Commit)] = tried @ rest"
      "calls (fst ?u) = [(0, Connect)] @ tried @ [(0, Rollback), (0, Close)]"
    and cl: "closed (sessions (fst ?u) 0)"
    by auto
  from t(2) u(2) have "length tried = 2" by simp
  with t(1) have "tried = take 2 [(0, Cursor), (0, Execute ?s), (0, Commit)]"
    by (metis append_eq_conv_conj)
  with t(2) cl have first: "calls (fst ?u)
     = [(0, Connect), (0, Cursor), (0, Execute ?s), (0, Rollback), (0, Close)]
     \<and> closed (sessions (fst ?u) 0)"
    by simp
  from commit_rollback_close_discipline [OF disjI1 [OF pk] ] k(1) o obtain tried' rest' where
    t': "[(0, Cursor), (0, Execute ?s), (0, Commit)] = tried' @ rest'"
      "calls (fst ?k) = [(0, Connect)] @ tried' @ [(0, Rollback)]"
    and cl': "\<not> closed (sessions (fst ?k) 0)"
    by auto
  from t'(2) k(2) have "length tried' = 3" by simp
  with t'(1) have "tried' = take 3 [(0, Cursor), (0, Execute ?s), (0, Commit)]"
    by (metis append_eq_conv_conj)
  with t'(2) cl' have second: "calls (fst ?k)
     = [(0, Connect), (0, Cursor), (0, Execute ?s), (0, Commit), (0, Rollback)]
     \<and> \<not> closed (sessions (fst ?k) 0)"
    by simp
  from commit_rollback_close_discipline [OF disjI2 [OF pc] ] c o
  have third: "calls (fst ?c)
     = [(0, Connect), (0, Cursor), (0, Execute (CreateOrReplaceView ''v'' ''SELECT 1'')),
        (0, Commit)]
     \<and> \<not> closed (sessions (fst ?c) 0)"
    by simp
  from first second third show ?thesis by blast
qed

section \<open>Reading\<close>

text \<open>
  C9. \<open>query_database\<close> called on a connection object with \<open>close_connection\<close> true
  leaves the connection closed, its last driver call being the close, whether
  \<open>read_sql\<close> returned a frame, which is then the result, or raised, which is then the
  exception the caller gets.
\<close>

theorem query_database_closes:
  assumes "query_database read_sql (Some h) query params True w = (w', r)"
  shows "closed (sessions w' h)
         \<and> (\<exists>before. calls w' = before @ [(h, Close)])
         \<and> (\<forall>w1 e. read_sql query h params w = (w1, Inl e) \<longrightarrow> r = Inl (External e))
         \<and> (\<forall>w1 df. read_sql query h params w = (w1, Inr df) \<longrightarrow> r = Inr df)"
proof (cases "read_sql query h params w")
  case (Pair w1 res)
  show ?thesis
  proof (cases res)
    case (Inl e)
    with Pair assms show ?thesis
      by (auto simp: query_database_def finally_close_def except_log_def and_then_def raised_def)
  next
    case (Inr df)
    with Pair assms show ?thesis
      by (auto simp: query_database_def finally_close_def except_log_def and_then_def raised_def)
  qed
qed

theorem query_database_closes_witness:
  "closed (sessions (fst (query_database failing_read_sql (Some 0) ''SELECT 1'' None True
                             (open_world Map.empty))) 0)
   \<and> snd (query_database failing_read_sql (Some 0) ''SELECT 1'' None True (open_world Map.empty))
       = Inl (External (OperationalError ''refused''))
   \<and> closed (sessions (fst (query_database empty_read_sql (Some 0) ''SELECT 1'' None True
                               (open_world Map.empty))) 0)
   \<and> snd (query_database empty_read_sql (Some 0) ''SELECT 1'' None True (open_world Map.empty))
       = Inr \<lparr> columns = [], values_tolist = [] \<rparr>"
proof -
  let ?f = "query_database failing_read_sql (Some 0) ''SELECT 1'' None True (open_world Map.empty)"
  let ?g = "query_database empty_read_sql (Some 0) ''SELECT 1'' None True (open_world Map.empty)"
  have pf: "?f = (fst ?f, snd ?f)" and pg: "?g = (fst ?g, snd ?g)"
    by simp_all
  from query_database_closes [OF pf] have
    "closed (sessions (fst ?f) 0) \<and> snd ?f = Inl (External (OperationalError ''refused''))"
    by (simp add: failing_read_sql_def)
  moreover from query_database_closes [OF pg] have
    "closed (sessions (fst ?g) 0) \<and> snd ?g = Inr \<lparr> columns = [], values_tolist = [] \<rparr>"
    by (simp add: empty_read_sql_def)
  ultimately show ?thesis by blast
qed

section \<open>No connection\<close>

text \<open>
  C10. Called with no connection, \<open>query_database\<close>, \<open>update_records\<close> and \<open>create_view\<close>
  raise \<open>ConnectionError("No connection to database.")\<close> and return the world as it was:
  no statement, no commit or rollback, no close, no log line.
\<close>

theorem absent_connection_raises:
  "query_database read_sql None query params cc w
     = (w, Inl (ConnectionError (Message ''No connection to database.'')))
   \<and> update_records srv None query params cc w
     = (w, Inl (ConnectionError (Message ''No connection to database.'')))
   \<and> create_view srv None view_name query cc w
     = (w, Inl (ConnectionError (Message ''No connection to database.'')))"
  by (simp add: query_database_def update_records_def create_view_def)

end
